theory Spec2Isabelle
  imports Main
begin

unbundle bit_operations_syntax

section \<open>JavaScript values read from stats.json\<close>

text \<open>
  A row of \<^verbatim>\<open>stats.json\<close> is a JSON object. Reading a property that the object lacks
  yields \<^verbatim>\<open>undefined\<close>, so an absent field is the value \<open>JUndefined\<close>. \<open>JNum n\<close> is the
  Number \<open>n\<close>, an integer in the range where Numbers are exact
  (\<^verbatim>\<open>Number.isSafeInteger\<close>, \<open>\<bar>n\<bar> < 2 ^ 53\<close>); fractions, strings, arrays and nested
  objects are outside this model.
\<close>

datatype jsval = JUndefined | JNull | JBool bool | JNum int

text \<open>A Number that results from a conversion: an integer or \<^verbatim>\<open>NaN\<close>.\<close>

datatype number = NaN | Num int

fun ToNumber :: "jsval \<Rightarrow> number" where
  "ToNumber JUndefined = NaN"
| "ToNumber JNull = Num 0"
| "ToNumber (JBool b) = Num (if b then 1 else 0)"
| "ToNumber (JNum n) = Num n"

text \<open>\<^verbatim>\<open>v > k\<close> for a numeric literal \<open>k\<close>: false as soon as an operand is \<^verbatim>\<open>NaN\<close>.\<close>

definition js_gt :: "jsval \<Rightarrow> int \<Rightarrow> bool" where
  "js_gt v k = (case ToNumber v of NaN \<Rightarrow> False | Num n \<Rightarrow> n > k)"

text \<open>\<^verbatim>\<open>ToInt32\<close>: \<^verbatim>\<open>NaN\<close> becomes 0, an integer wraps to signed 32 bits.\<close>

fun ToInt32 :: "number \<Rightarrow> int" where
  "ToInt32 NaN = 0"
| "ToInt32 (Num n) = (n + 2 ^ 31) mod 2 ^ 32 - 2 ^ 31"

text \<open>
  \<^verbatim>\<open>x & m\<close>. The result is an integer Number, so that \<^verbatim>\<open>BigInt(x & m)\<close> never throws and
  is the same integer.
\<close>

definition js_bitand :: "number \<Rightarrow> int \<Rightarrow> int" where
  "js_bitand x m = ToInt32 x AND ToInt32 (Num m)"

fun Math_min :: "number \<Rightarrow> int \<Rightarrow> number" where
  "Math_min NaN k = NaN"
| "Math_min (Num n) k = Num (min n k)"

text \<open>
  \<^verbatim>\<open>Math.floor(x / k)\<close> for a positive literal \<open>k\<close>. The division is one of doubles:
  it agrees with integer division for \<open>\<bar>x\<bar> < 2 ^ 53\<close>, the range the properties below
  keep to.
\<close>

fun Math_floor_div :: "number \<Rightarrow> int \<Rightarrow> number" where
  "Math_floor_div NaN k = NaN"
| "Math_floor_div (Num n) k = Num (n div k)"

fun ToBoolean :: "jsval \<Rightarrow> bool" where
  "ToBoolean JUndefined = False"
| "ToBoolean JNull = False"
| "ToBoolean (JBool b) = b"
| "ToBoolean (JNum n) = (n \<noteq> 0)"

subsection \<open>Rendering integers\<close>

definition digit_char :: "int \<Rightarrow> char" where
  "digit_char d = ''0123456789abcdefghijklmnopqrstuvwxyz'' ! nat d"

text \<open>
  The digits of \<open>n \<ge> 0\<close> in radix \<open>b\<close>, most significant first, without leading zeros.
  JavaScript accepts radix 2 to 36; the code uses 16 and 10.
\<close>

function digits :: "int \<Rightarrow> int \<Rightarrow> string" where
  "digits b n =
     (if b < 2 \<or> n < b then [digit_char n]
      else digits b (n div b) @ [digit_char (n mod b)])"
  by pat_completeness auto
termination
  by (relation "measure (\<lambda>(b, n). nat n)") (auto simp: int_div_less_self)

declare digits.simps [simp del]

text \<open>\<^verbatim>\<open>BigInt.prototype.toString(radix)\<close>.\<close>

definition BigInt_toString :: "int \<Rightarrow> int \<Rightarrow> string" where
  "BigInt_toString radix d =
     (if d < 0 then CHR ''-'' # digits radix (- d) else digits radix d)"

text \<open>\<^verbatim>\<open>String.prototype.padStart(n, c)\<close> with a one-character filler.\<close>

definition padStart :: "nat \<Rightarrow> char \<Rightarrow> string \<Rightarrow> string" where
  "padStart n c s = replicate (n - length s) c @ s"

text \<open>
  \<^verbatim>\<open>${v}\<close> in a template literal. For a Number the decimal digits are what JavaScript
  prints as long as the Number is a safe integer; from \<open>10 ^ 21\<close> on JavaScript switches to
  exponent notation, which is not modelled.
\<close>

fun ToString :: "jsval \<Rightarrow> string" where
  "ToString JUndefined = ''undefined''"
| "ToString JNull = ''null''"
| "ToString (JBool b) = (if b then ''true'' else ''false'')"
| "ToString (JNum n) = BigInt_toString 10 n"

text \<open>\<^verbatim>\<open>Number.isSafeInteger\<close> on a Number; other values have a fixed rendering.\<close>

fun safe_to_print :: "jsval \<Rightarrow> bool" where
  "safe_to_print (JNum n) = (\<bar>n\<bar> < 2 ^ 53)"
| "safe_to_print v = True"

section \<open>pack32\<close>

record player =
  id_field :: jsval
  goles :: jsval
  asistencias :: jsval
  paradas :: jsval
  penaltisParados :: jsval
  despejes :: jsval
  minutosJugados :: jsval
  tarjetasAmarillas :: jsval
  tarjetasRojas :: jsval
  porteriaCero :: jsval
  ganoPartido :: jsval

text \<open>
  What the program can throw: \<open>Error msg\<close> is \<^verbatim>\<open>new Error(msg)\<close> of \<open>pack32\<close>, \<open>TypeError\<close>
  the failed \<^verbatim>\<open>BigInt(undefined)\<close>, \<open>Rejected c\<close> the rejection of the external call \<open>c\<close>.
\<close>

datatype error = Error string | TypeError | Rejected string

text \<open>The 32-bit word \<open>d\<close> that \<open>pack32\<close> assembles once the checks have passed.\<close>

definition pack_word :: "player \<Rightarrow> int" where
  "pack_word p =
     (let paradasC = Math_min (ToNumber (paradas p)) 31;
          despejesC = Math_min (ToNumber (despejes p)) 63;
          minutosQ = Math_floor_div (ToNumber (minutosJugados p)) 3;
          d = js_bitand (ToNumber (goles p)) 0x0F;
          d = d OR push_bit 4 (js_bitand (ToNumber (asistencias p)) 0x0F);
          d = d OR push_bit 8 (js_bitand paradasC 0x1F);
          d = d OR push_bit 13 (js_bitand (ToNumber (penaltisParados p)) 0x07);
          d = d OR push_bit 16 (js_bitand despejesC 0x3F);
          d = d OR push_bit 22 (js_bitand minutosQ 0x1F);
          d = d OR push_bit 27 (js_bitand (ToNumber (tarjetasAmarillas p)) 0x03);
          d = d OR push_bit 29 (js_bitand (ToNumber (tarjetasRojas p)) 0x01);
          d = (if ToBoolean (porteriaCero p) then d OR push_bit 30 1 else d);
          d = (if ToBoolean (ganoPartido p) then d OR push_bit 31 1 else d)
      in d)"

definition pack32 :: "player \<Rightarrow> error + string" where
  "pack32 p =
     (if js_gt (goles p) 8 then Inl (Error (''goles>8 id='' @ ToString (id_field p)))
      else if js_gt (asistencias p) 8 then Inl (Error (''asis>8 id='' @ ToString (id_field p)))
      else if js_gt (penaltisParados p) 4
        then Inl (Error (''penaltisParados>4 id='' @ ToString (id_field p)))
      else if js_gt (paradas p) 32 \<or> js_gt (despejes p) 64
        then Inl (Error (''paradas/despejes fuera de rango id='' @ ToString (id_field p)))
      else if js_gt (minutosJugados p) 90
        then Inl (Error (''minutos>90 id='' @ ToString (id_field p)))
      else if js_gt (tarjetasAmarillas p) 2 \<or> js_gt (tarjetasRojas p) 1
        then Inl (Error (''tarjetas fuera de rango id='' @ ToString (id_field p)))
      else Inr (''0x'' @ padStart 8 (CHR ''0'') (BigInt_toString 16 (pack_word p))))"

section \<open>The network, the account and the console\<close>

text \<open>
  The request object \<^verbatim>\<open>txData\<close> of \<open>sendPacked\<close>. The two fee fields are decimal strings
  (\<^verbatim>\<open>tip.toString()\<close>, \<^verbatim>\<open>maxFee.toString()\<close>).
\<close>

record txData =
  tx_from :: string
  tx_to :: string
  gas :: int
  maxPriorityFeePerGas :: string
  maxFeePerGas :: string
  nonce :: nat
  data :: string

text \<open>
  One run of the retried callback: signing is rejected, or the signed transaction is sent
  and the send is rejected, or a receipt arrives with \<^verbatim>\<open>gasUsed\<close> and the callback measures
  \<^verbatim>\<open>dt = Date.now() - t0\<close> milliseconds.
\<close>

datatype attempt_reply = SignRejects | SendRejects | Receipt int int

text \<open>
  Everything outside the program, fixed for one run: the account and contract addresses,
  the ABI encoder of \<^verbatim>\<open>actualizarStatsPacked32(id, packedHex)\<close> (\<open>None\<close> when it throws;
  the ABI file is not part of the source), the reply to the \<open>k\<close>-th call of
  \<^verbatim>\<open>getBlock("pending")\<close> (\<open>None\<close> when the call is rejected, else the block's
  \<^verbatim>\<open>baseFeePerGas\<close>), the reply to the \<open>k\<close>-th run of the retried callback, and the
  reply to \<^verbatim>\<open>getTransactionCount\<close>.
\<close>

record world =
  acct_address :: string
  league_address :: string
  encodeABI :: "jsval \<Rightarrow> string \<Rightarrow> string option"
  getBlock :: "nat \<Rightarrow> jsval option"
  attempt_reply :: "nat \<Rightarrow> attempt_reply"
  getTransactionCount :: "nat option"

text \<open>Calls that reach the network or the signer, in the order they are made.\<close>

datatype event = GetBlock | Sign txData | Send txData

text \<open>
  \<^verbatim>\<open>Number(a) / n\<close> for a BigInt \<open>a\<close> and a length \<open>n\<close>: \<^verbatim>\<open>NaN\<close> for \<open>0 / 0\<close>, an
  infinity for another division by zero. For \<open>n > 0\<close> the result is the double nearest to
  the quotient, printed through \<^verbatim>\<open>toFixed(0)\<close>; doubles are not computed here, and
  \<open>Ratio a n\<close> stands for that Number by its dividend and divisor.
\<close>

datatype quotient = QNaN | QInfinity | QNegInfinity | Ratio int nat

definition js_divide :: "int \<Rightarrow> nat \<Rightarrow> quotient" where
  "js_divide a n =
     (if n = 0 then (if a = 0 then QNaN else if 0 < a then QInfinity else QNegInfinity)
      else Ratio a n)"

text \<open>The lines written with \<^verbatim>\<open>console.log\<close> and \<^verbatim>\<open>console.timeEnd\<close>, by their arguments.\<close>

datatype console_line =
    SubmittedLine jsval int int
  | RetryLine jsval nat
  | BatchTimeLine
  | SummaryHeader
  | ProcessedLine nat
  | TotalGasLine int
  | MeanGasLine quotient
  | MeanLatencyLine quotient

text \<open>
  The module-level metrics \<open>totalGas\<close> and \<open>latencies\<close>, the console, and the calls made
  so far with their counters.
\<close>

record state =
  totalGas :: int
  latencies :: "int list"
  console :: "console_line list"
  trace :: "event list"
  blockCalls :: nat
  attempts :: nat

definition initial_state :: state where
  "initial_state =
     \<lparr>totalGas = 0, latencies = [], console = [], trace = [], blockCalls = 0, attempts = 0\<rparr>"

section \<open>sendPacked\<close>

text \<open>\<^verbatim>\<open>BigInt(v)\<close>: a TypeError on \<^verbatim>\<open>undefined\<close> and \<^verbatim>\<open>null\<close>.\<close>

fun BigInt :: "jsval \<Rightarrow> error + int" where
  "BigInt JUndefined = Inl TypeError"
| "BigInt JNull = Inl TypeError"
| "BigInt (JBool b) = Inr (if b then 1 else 0)"
| "BigInt (JNum n) = Inr n"

definition GAS_LIMIT :: int where
  "GAS_LIMIT = 120000"

text \<open>The callback handed to \<^verbatim>\<open>retry\<close>: sign, send, then update the metrics and log.\<close>

definition attempt :: "world \<Rightarrow> txData \<Rightarrow> jsval \<Rightarrow> state \<Rightarrow> (error + int) \<times> state" where
  "attempt w tx ident s =
     (let s1 = s\<lparr>attempts := attempts s + 1, trace := trace s @ [Sign tx]\<rparr> in
      case attempt_reply w (attempts s) of
        SignRejects \<Rightarrow> (Inl (Rejected ''signTransaction''), s1)
      | SendRejects \<Rightarrow>
          (Inl (Rejected ''sendSignedTransaction''), s1\<lparr>trace := trace s1 @ [Send tx]\<rparr>)
      | Receipt gasUsed dt \<Rightarrow>
          (Inr gasUsed,
           s1\<lparr>trace := trace s1 @ [Send tx],
              totalGas := totalGas s1 + gasUsed,
              latencies := latencies s1 @ [dt],
              console := console s1 @ [SubmittedLine ident gasUsed dt]\<rparr>))"

text \<open>
  \<^verbatim>\<open>retry(fn, { retries, onRetry })\<close> of the async-retry package: run the callback; when it
  fails and retries are left, call \<open>onRetry\<close> with the number of the failed run and run it
  again; when none is left, reject. \<open>i\<close> is the number of the current run, from 1.
  The package is not part of the source. Two of its details are left out: an error that
  carries a property \<^verbatim>\<open>bail\<close> ends the loop at once, and the final rejection carries the
  most frequent error rather than the last one. The errors of the network are opaque here
  (\<open>Rejected\<close>), and nothing below depends on which of them is reported.
\<close>

fun retry :: "world \<Rightarrow> txData \<Rightarrow> jsval \<Rightarrow> nat \<Rightarrow> nat \<Rightarrow> state \<Rightarrow> (error + int) \<times> state" where
  "retry w tx ident 0 i s = attempt w tx ident s"
| "retry w tx ident (Suc retries) i s =
     (case attempt w tx ident s of
        (Inr rcpt, s') \<Rightarrow> (Inr rcpt, s')
      | (Inl e, s') \<Rightarrow>
          retry w tx ident retries (i + 1) (s'\<lparr>console := console s' @ [RetryLine ident i]\<rparr>))"

definition sendPacked :: "world \<Rightarrow> string \<Rightarrow> jsval \<Rightarrow> nat \<Rightarrow> state \<Rightarrow> (error + int) \<times> state" where
  "sendPacked w packedHex ident n s =
     (case encodeABI w ident packedHex of
        None \<Rightarrow> (Inl (Rejected ''encodeABI''), s)
      | Some encoded \<Rightarrow>
          (let s1 = s\<lparr>blockCalls := blockCalls s + 1, trace := trace s @ [GetBlock]\<rparr> in
           case getBlock w (blockCalls s) of
             None \<Rightarrow> (Inl (Rejected ''getBlock''), s1)
           | Some baseFeePerGas \<Rightarrow>
               (case BigInt baseFeePerGas of
                  Inl e \<Rightarrow> (Inl e, s1)
                | Inr base \<Rightarrow>
                    (let tip = 2 * 10 ^ 9;
                         maxFee = base * 2 + tip;
                         tx = \<lparr>tx_from = acct_address w,
                               tx_to = league_address w,
                               gas = GAS_LIMIT,
                               maxPriorityFeePerGas = BigInt_toString 10 tip,
                               maxFeePerGas = BigInt_toString 10 maxFee,
                               nonce = n,
                               data = encoded\<rparr>
                     in retry w tx ident 3 1 s1))))"

section \<open>The main loop\<close>

text \<open>
  \<^verbatim>\<open>for (const p of stats)\<close>, with the local counter \<open>nonce\<close>. An exception leaves the loop
  with the state reached so far.
\<close>

fun batch :: "world \<Rightarrow> player list \<Rightarrow> nat \<Rightarrow> state \<Rightarrow> (error + nat) \<times> state" where
  "batch w [] n s = (Inr n, s)"
| "batch w (p # ps) n s =
     (if goles p = JUndefined then batch w ps n s
      else case pack32 p of
        Inl e \<Rightarrow> (Inl e, s)
      | Inr packed \<Rightarrow>
          (case sendPacked w packed (id_field p) n s of
             (Inl e, s') \<Rightarrow> (Inl e, s')
           | (Inr rcpt, s') \<Rightarrow> batch w ps (n + 1) s'))"

definition main :: "world \<Rightarrow> player list \<Rightarrow> (error + unit) \<times> state" where
  "main w stats =
     (case getTransactionCount w of
        None \<Rightarrow> (Inl (Rejected ''getTransactionCount''), initial_state)
      | Some n0 \<Rightarrow>
          (case batch w stats n0 initial_state of
             (Inl e, s) \<Rightarrow> (Inl e, s)
           | (Inr n, s) \<Rightarrow>
               (let avgGas = js_divide (totalGas s) (length stats);
                    avgLat = js_divide (foldl (\<lambda>a b. a + b) 0 (latencies s)) (length stats)
                in (Inr (),
                    s\<lparr>console := console s @
                       [BatchTimeLine, SummaryHeader, ProcessedLine (length stats),
                        TotalGasLine (totalGas s), MeanGasLine avgGas,
                        MeanLatencyLine avgLat]\<rparr>))))"

section \<open>Reading the model's outputs\<close>

text \<open>
  The functions of this section are not part of the program. They read a packed string
  back into a number and pick the requests out of a trace, so that the properties below can
  be stated about what the program hands to the outside.
\<close>

text \<open>The value of a hexadecimal digit is its position in the alphabet of digits.\<close>

definition read_hex_digit :: "char \<Rightarrow> int" where
  "read_hex_digit c = int (length (takeWhile (\<lambda>d. d \<noteq> c) ''0123456789abcdef''))"

definition read_hex :: "string \<Rightarrow> int" where
  "read_hex s = foldl (\<lambda>acc c. 16 * acc + read_hex_digit c) 0 s"

text \<open>The requests handed to \<^verbatim>\<open>signTransaction\<close> and to \<^verbatim>\<open>sendSignedTransaction\<close>, in order.\<close>

fun signed :: "event list \<Rightarrow> txData list" where
  "signed [] = []"
| "signed (Sign tx # es) = tx # signed es"
| "signed (e # es) = signed es"

fun sent :: "event list \<Rightarrow> txData list" where
  "sent [] = []"
| "sent (Send tx # es) = tx # sent es"
| "sent (e # es) = sent es"

text \<open>
  \<open>blocks P n m txs\<close>: the list \<open>txs\<close> consists of one non-empty run of equal requests
  for each nonce \<open>n, n + 1, \<dots>, m - 1\<close>, in this order, and the request of nonce \<open>k\<close>
  satisfies \<open>P k\<close>.
\<close>

inductive blocks :: "(nat \<Rightarrow> txData \<Rightarrow> bool) \<Rightarrow> nat \<Rightarrow> nat \<Rightarrow> txData list \<Rightarrow> bool"
  for P :: "nat \<Rightarrow> txData \<Rightarrow> bool" where
  blocks_Nil: "blocks P n n []"
| blocks_Cons:
    "nonce tx = n \<Longrightarrow> P n tx \<Longrightarrow> 0 < k \<Longrightarrow> blocks P (Suc n) m rest
      \<Longrightarrow> blocks P n m (replicate k tx @ rest)"

text \<open>The fee fields of a request derived from the \<open>b\<close>-th reply of \<^verbatim>\<open>getBlock\<close>.\<close>

definition fee_ok :: "world \<Rightarrow> nat \<Rightarrow> txData \<Rightarrow> bool" where
  "fee_ok w b tx \<longleftrightarrow>
     gas tx = 120000 \<and> maxPriorityFeePerGas tx = BigInt_toString 10 (2 * 10 ^ 9)
     \<and> (\<exists>v base. getBlock w b = Some v \<and> BigInt v = Inr base
          \<and> maxFeePerGas tx = BigInt_toString 10 (2 * base + 2 * 10 ^ 9))"

text \<open>The lines that only the end of a completed batch prints.\<close>

fun summary_line :: "console_line \<Rightarrow> bool" where
  "summary_line (SubmittedLine i g d) = False"
| "summary_line (RetryLine i k) = False"
| "summary_line l = True"

section \<open>Example inputs\<close>

text \<open>The first record of the end-to-end scenario, and records built around the limits.\<close>

definition example_player :: player where
  "example_player =
     \<lparr>id_field = JNum 1, goles = JNum 2, asistencias = JNum 1, paradas = JNum 5,
      penaltisParados = JNum 0, despejes = JNum 10, minutosJugados = JNum 90,
      tarjetasAmarillas = JNum 0, tarjetasRojas = JNum 0, porteriaCero = JBool False,
      ganoPartido = JBool True\<rparr>"

definition zero_player :: "jsval \<Rightarrow> player" where
  "zero_player i =
     \<lparr>id_field = i, goles = JNum 0, asistencias = JNum 0, paradas = JNum 0,
      penaltisParados = JNum 0, despejes = JNum 0, minutosJugados = JNum 0,
      tarjetasAmarillas = JNum 0, tarjetasRojas = JNum 0, porteriaCero = JBool False,
      ganoPartido = JBool False\<rparr>"

definition limit_player :: "jsval \<Rightarrow> player" where
  "limit_player i =
     \<lparr>id_field = i, goles = JNum 8, asistencias = JNum 8, paradas = JNum 32,
      penaltisParados = JNum 4, despejes = JNum 64, minutosJugados = JNum 90,
      tarjetasAmarillas = JNum 2, tarjetasRojas = JNum 1, porteriaCero = JBool False,
      ganoPartido = JBool False\<rparr>"

definition only_goles :: "jsval \<Rightarrow> jsval \<Rightarrow> player" where
  "only_goles i g =
     \<lparr>id_field = i, goles = g, asistencias = JUndefined, paradas = JUndefined,
      penaltisParados = JUndefined, despejes = JUndefined, minutosJugados = JUndefined,
      tarjetasAmarillas = JUndefined, tarjetasRojas = JUndefined, porteriaCero = JUndefined,
      ganoPartido = JUndefined\<rparr>"


text \<open>
  A network in which the second and third runs of the callback fail, and variants of it: one
  where every run after the first fails, one with a negative base fee, one whose pending
  block has no base fee.
\<close>

definition world1 :: world where
  "world1 =
     \<lparr>acct_address = ''0xacc'', league_address = ''0x1ea'',
      encodeABI = (\<lambda>i h. Some (ToString i @ '':'' @ h)),
      getBlock = (\<lambda>k. Some (JNum (100 + int k))),
      attempt_reply = (\<lambda>k. if k = 1 \<or> k = 2 then SendRejects else Receipt 50000 12),
      getTransactionCount = Some 5\<rparr>"

definition world_down :: world where
  "world_down = world1\<lparr>attempt_reply := (\<lambda>k. if k = 0 then Receipt 50000 12 else SendRejects)\<rparr>"

definition world_negative_fee :: world where
  "world_negative_fee = world1\<lparr>getBlock := (\<lambda>k. Some (JNum (- 5)))\<rparr>"

definition world_no_fee :: world where
  "world_no_fee = world1\<lparr>getBlock := (\<lambda>k. Some JUndefined)\<rparr>"

definition stats1 :: "player list" where
  "stats1 =
     [zero_player (JNum 1), (zero_player (JNum 2))\<lparr>goles := JNum 3\<rparr>,
      (zero_player (JNum 3))\<lparr>goles := JUndefined\<rparr>, zero_player (JNum 4)]"

definition tx1 :: "nat \<Rightarrow> string \<Rightarrow> string \<Rightarrow> txData" where
  "tx1 n fee payload =
     \<lparr>tx_from = ''0xacc'', tx_to = ''0x1ea'', gas = 120000,
      maxPriorityFeePerGas = ''2000000000'', maxFeePerGas = fee, nonce = n, data = payload\<rparr>"

definition state_after_first :: state where
  "state_after_first =
     \<lparr>totalGas = 50000, latencies = [12], console = [SubmittedLine (JNum 1) 50000 12],
      trace = [GetBlock, Sign (tx1 5 ''2000000200'' ''1:0x00000000''),
               Send (tx1 5 ''2000000200'' ''1:0x00000000'')],
      blockCalls = 1, attempts = 1\<rparr>"

section \<open>Bit masks and the layout of the word\<close>

lemma ToInt32_Num: "ToInt32 (Num n) = signed_take_bit 31 n"
  by (simp add: signed_take_bit_eq_take_bit_shift take_bit_eq_mod)

lemma ToInt32_mask: "k \<le> 31 \<Longrightarrow> ToInt32 (Num (mask k)) = mask k"
  unfolding ToInt32_Num
  by (rule bit_eqI) (auto simp: bit_simps)

lemma js_bitand_mask: "k \<le> 31 \<Longrightarrow> js_bitand (Num n) (mask k) = n mod 2 ^ k"
proof -
  assume k: "k \<le> 31"
  have "signed_take_bit 31 n AND mask k = take_bit k n"
    using k by (intro bit_eqI) (auto simp: bit_simps min_def)
  moreover have "js_bitand (Num n) (mask k) = ToInt32 (Num n) AND mask k"
    by (simp only: js_bitand_def ToInt32_mask [OF k])
  ultimately show ?thesis
    by (simp only: ToInt32_Num take_bit_eq_mod)
qed

lemma js_bitand_NaN: "js_bitand NaN m = 0"
  by (simp add: js_bitand_def)

lemma js_bitand_numerals:
  "js_bitand (Num n) 0x0F = n mod 16"
  "js_bitand (Num n) 0x1F = n mod 32"
  "js_bitand (Num n) 0x07 = n mod 8"
  "js_bitand (Num n) 0x3F = n mod 64"
  "js_bitand (Num n) 0x03 = n mod 4"
  "js_bitand (Num n) 0x01 = n mod 2"
  using js_bitand_mask [of 4 n] js_bitand_mask [of 5 n] js_bitand_mask [of 3 n]
    js_bitand_mask [of 6 n] js_bitand_mask [of 2 n] js_bitand_mask [of 1 n]
  by (simp_all add: mask_eq_exp_minus_1)

lemma or_push_bit_add:
  fixes a b :: int
  assumes "0 \<le> a" "a < 2 ^ k"
  shows "a OR push_bit k b = a + 2 ^ k * b"
proof -
  have "take_bit k a = a"
    using assms by (simp add: take_bit_int_eq_self)
  then have "a OR push_bit k b = concat_bit k a b"
    by (simp add: concat_bit_def)
  also have "\<dots> = a + 2 ^ k * b"
    using \<open>take_bit k a = a\<close> by (simp add: concat_bit_eq push_bit_eq_mult mult.commute)
  finally show ?thesis .
qed

lemma or_chain:
  fixes f0 f1 f2 f3 f4 f5 f6 f7 b30 b31 :: int
  assumes "0 \<le> f0" "f0 < 16" "0 \<le> f1" "f1 < 16" "0 \<le> f2" "f2 < 32" "0 \<le> f3" "f3 < 8"
    and "0 \<le> f4" "f4 < 64" "0 \<le> f5" "f5 < 32" "0 \<le> f6" "f6 < 4" "0 \<le> f7" "f7 < 2"
    and "0 \<le> b30" "b30 < 2"
  shows "(((((((((f0 OR push_bit 4 f1) OR push_bit 8 f2) OR push_bit 13 f3) OR push_bit 16 f4)
      OR push_bit 22 f5) OR push_bit 27 f6) OR push_bit 29 f7) OR push_bit 30 b30) OR push_bit 31 b31)
    = f0 + 16 * f1 + 256 * f2 + 8192 * f3 + 65536 * f4 + 4194304 * f5 + 134217728 * f6
      + 536870912 * f7 + 1073741824 * b30 + 2147483648 * b31"
proof -
  have 1: "f0 OR push_bit 4 f1 = f0 + 16 * f1"
    using assms or_push_bit_add [of f0 4 f1] by simp
  have 2: "f0 + 16 * f1 OR push_bit 8 f2 = f0 + 16 * f1 + 256 * f2"
    using assms or_push_bit_add [of "f0 + 16 * f1" 8 f2] by simp
  have 3: "f0 + 16 * f1 + 256 * f2 OR push_bit 13 f3 = f0 + 16 * f1 + 256 * f2 + 8192 * f3"
    using assms or_push_bit_add [of "f0 + 16 * f1 + 256 * f2" 13 f3] by simp
  have 4: "f0 + 16 * f1 + 256 * f2 + 8192 * f3 OR push_bit 16 f4
      = f0 + 16 * f1 + 256 * f2 + 8192 * f3 + 65536 * f4"
    using assms or_push_bit_add [of "f0 + 16 * f1 + 256 * f2 + 8192 * f3" 16 f4] by simp
  have 5: "f0 + 16 * f1 + 256 * f2 + 8192 * f3 + 65536 * f4 OR push_bit 22 f5
      = f0 + 16 * f1 + 256 * f2 + 8192 * f3 + 65536 * f4 + 4194304 * f5"
    using assms or_push_bit_add [of "f0 + 16 * f1 + 256 * f2 + 8192 * f3 + 65536 * f4" 22 f5]
    by simp
  have 6: "f0 + 16 * f1 + 256 * f2 + 8192 * f3 + 65536 * f4 + 4194304 * f5 OR push_bit 27 f6
      = f0 + 16 * f1 + 256 * f2 + 8192 * f3 + 65536 * f4 + 4194304 * f5 + 134217728 * f6"
    using assms
      or_push_bit_add [of "f0 + 16 * f1 + 256 * f2 + 8192 * f3 + 65536 * f4 + 4194304 * f5" 27 f6]
    by simp
  have 7: "f0 + 16 * f1 + 256 * f2 + 8192 * f3 + 65536 * f4 + 4194304 * f5 + 134217728 * f6
        OR push_bit 29 f7
      = f0 + 16 * f1 + 256 * f2 + 8192 * f3 + 65536 * f4 + 4194304 * f5 + 134217728 * f6
        + 536870912 * f7"
    using assms
      or_push_bit_add [of "f0 + 16 * f1 + 256 * f2 + 8192 * f3 + 65536 * f4 + 4194304 * f5
        + 134217728 * f6" 29 f7]
    by simp
  have 8: "f0 + 16 * f1 + 256 * f2 + 8192 * f3 + 65536 * f4 + 4194304 * f5 + 134217728 * f6
        + 536870912 * f7 OR push_bit 30 b30
      = f0 + 16 * f1 + 256 * f2 + 8192 * f3 + 65536 * f4 + 4194304 * f5 + 134217728 * f6
        + 536870912 * f7 + 1073741824 * b30"
    using assms
      or_push_bit_add [of "f0 + 16 * f1 + 256 * f2 + 8192 * f3 + 65536 * f4 + 4194304 * f5
        + 134217728 * f6 + 536870912 * f7" 30 b30]
    by simp
  have 9: "f0 + 16 * f1 + 256 * f2 + 8192 * f3 + 65536 * f4 + 4194304 * f5 + 134217728 * f6
        + 536870912 * f7 + 1073741824 * b30 OR push_bit 31 b31
      = f0 + 16 * f1 + 256 * f2 + 8192 * f3 + 65536 * f4 + 4194304 * f5 + 134217728 * f6
        + 536870912 * f7 + 1073741824 * b30 + 2147483648 * b31"
    using assms
      or_push_bit_add [of "f0 + 16 * f1 + 256 * f2 + 8192 * f3 + 65536 * f4 + 4194304 * f5
        + 134217728 * f6 + 536870912 * f7 + 1073741824 * b30" 31 b31]
    by simp
  show ?thesis
    by (simp only: 1 2 3 4 5 6 7 8 9)
qed

lemma field_extract:
  fixes w lo f hi :: int
  assumes "w = lo + 2 ^ k * (f + 2 ^ n * hi)" "0 \<le> lo" "lo < 2 ^ k" "0 \<le> f" "f < 2 ^ n"
  shows "take_bit n (drop_bit k w) = f"
proof -
  have "w div 2 ^ k = f + 2 ^ n * hi"
    using assms by (simp add: div_pos_pos_trivial)
  then show ?thesis
    using assms by (simp add: drop_bit_eq_div take_bit_eq_mod)
qed

lemma pack_word_sum:
  assumes "goles p = JNum g" "asistencias p = JNum a" "paradas p = JNum pa"
    and "penaltisParados p = JNum pe" "despejes p = JNum de" "minutosJugados p = JNum m"
    and "tarjetasAmarillas p = JNum ta" "tarjetasRojas p = JNum tr"
  shows "pack_word p = g mod 16 + 16 * (a mod 16) + 256 * (min pa 31 mod 32) + 8192 * (pe mod 8)
    + 65536 * (min de 63 mod 64) + 4194304 * (m div 3 mod 32) + 134217728 * (ta mod 4)
    + 536870912 * (tr mod 2) + 1073741824 * of_bool (ToBoolean (porteriaCero p))
    + 2147483648 * of_bool (ToBoolean (ganoPartido p))"
proof -
  have flag: "(if c then d OR push_bit k 1 else d) = d OR push_bit k (of_bool c)"
    for c and d :: int and k
    by simp
  have "pack_word p =
    (((((((((g mod 16 OR push_bit 4 (a mod 16)) OR push_bit 8 (min pa 31 mod 32))
      OR push_bit 13 (pe mod 8)) OR push_bit 16 (min de 63 mod 64))
      OR push_bit 22 (m div 3 mod 32)) OR push_bit 27 (ta mod 4)) OR push_bit 29 (tr mod 2))
      OR push_bit 30 (of_bool (ToBoolean (porteriaCero p))))
      OR push_bit 31 (of_bool (ToBoolean (ganoPartido p))))"
    by (simp only: pack_word_def Let_def assms ToNumber.simps Math_min.simps
        Math_floor_div.simps js_bitand_numerals flag)
  also have "\<dots> = g mod 16 + 16 * (a mod 16) + 256 * (min pa 31 mod 32) + 8192 * (pe mod 8)
    + 65536 * (min de 63 mod 64) + 4194304 * (m div 3 mod 32) + 134217728 * (ta mod 4)
    + 536870912 * (tr mod 2) + 1073741824 * of_bool (ToBoolean (porteriaCero p))
    + 2147483648 * of_bool (ToBoolean (ganoPartido p))"
    by (rule or_chain) simp_all
  finally show ?thesis .
qed

lemma digit_char_hex:
  assumes "0 \<le> d" "d < 16"
  shows "read_hex_digit (digit_char d) = d" and "digit_char d \<in> set ''0123456789abcdef''"
proof -
  from assms have "d \<in> {0, 1, 2, 3, 4, 5, 6, 7, 8, 9, 10, 11, 12, 13, 14, 15}"
    by simp presburger
  then show "read_hex_digit (digit_char d) = d" and "digit_char d \<in> set ''0123456789abcdef''"
    by (auto simp: digit_char_def read_hex_digit_def)
qed

lemma read_hex_snoc: "read_hex (s @ [c]) = 16 * read_hex s + read_hex_digit c"
  by (simp add: read_hex_def)

lemma read_hex_single: "read_hex [c] = read_hex_digit c"
  by (simp add: read_hex_def)

lemma digits_hex:
  "0 \<le> n \<Longrightarrow> read_hex (digits 16 n) = n \<and> set (digits 16 n) \<subseteq> set ''0123456789abcdef''"
proof (induction "16 :: int" n rule: digits.induct)
  case (1 n)
  show ?case
  proof (cases "n < 16")
    case True
    with 1 digit_char_hex [of n] show ?thesis
      by (simp add: digits.simps [of 16 n] read_hex_single)
  next
    case False
    with 1 have ih: "read_hex (digits 16 (n div 16)) = n div 16"
      "set (digits 16 (n div 16)) \<subseteq> set ''0123456789abcdef''"
      by simp_all
    have d: "read_hex_digit (digit_char (n mod 16)) = n mod 16"
      "digit_char (n mod 16) \<in> set ''0123456789abcdef''"
      using digit_char_hex [of "n mod 16"] by simp_all
    from False ih d show ?thesis
      by (simp add: digits.simps [of 16 n] read_hex_snoc)
  qed
qed

lemma digits_length:
  "0 \<le> n \<Longrightarrow> n < 16 ^ k \<Longrightarrow> 0 < k \<Longrightarrow> length (digits 16 n) \<le> k"
proof (induction "16 :: int" n arbitrary: k rule: digits.induct)
  case (1 n)
  show ?case
  proof (cases "n < 16")
    case True
    with 1 show ?thesis
      by (simp add: digits.simps [of 16 n] Suc_leI)
  next
    case False
    then obtain j where k: "k = Suc j" "0 < j"
      using 1(3,4) by (cases k; cases "k - 1") auto
    have "n div 16 < 16 ^ j"
      using 1(3) k by auto
    with 1 False k show ?thesis
      by (simp add: digits.simps [of 16 n])
  qed
qed

lemma layout_fields:
  fixes f0 f1 f2 f3 f4 f5 f6 f7 b30 b31 :: int
  assumes "0 \<le> f0" "f0 < 16" "0 \<le> f1" "f1 < 16" "0 \<le> f2" "f2 < 32" "0 \<le> f3" "f3 < 8"
    and "0 \<le> f4" "f4 < 64" "0 \<le> f5" "f5 < 32" "0 \<le> f6" "f6 < 4" "0 \<le> f7" "f7 < 2"
    and "0 \<le> b30" "b30 < 2" "0 \<le> b31" "b31 < 2"
    and w: "w = f0 + 16 * f1 + 256 * f2 + 8192 * f3 + 65536 * f4 + 4194304 * f5
      + 134217728 * f6 + 536870912 * f7 + 1073741824 * b30 + 2147483648 * b31"
  shows
    "take_bit 4 w = f0"
    and "take_bit 4 (drop_bit 4 w) = f1"
    and "take_bit 5 (drop_bit 8 w) = f2"
    and "take_bit 3 (drop_bit 13 w) = f3"
    and "take_bit 6 (drop_bit 16 w) = f4"
    and "take_bit 5 (drop_bit 22 w) = f5"
    and "take_bit 2 (drop_bit 27 w) = f6"
    and "take_bit 1 (drop_bit 29 w) = f7"
    and "take_bit 1 (drop_bit 30 w) = b30"
    and "take_bit 1 (drop_bit 31 w) = b31"
    and "0 \<le> w"
    and "w < 2 ^ 32"
proof -
  have "w = (0) + 2 ^ 0 * (f0 + 2 ^ 4 * (f1 + 16 * f2 + 512 * f3 + 4096 * f4 + 262144 * f5 + 8388608 * f6 + 33554432 * f7 + 67108864 * b30 + 134217728 * b31))"
    by (simp add: w)
  then have "take_bit 4 (drop_bit 0 w) = f0"
    by (rule field_extract) (use assms in simp_all)
  then show "take_bit 4 w = f0"
    by simp
  have "w = (f0) + 2 ^ 4 * (f1 + 2 ^ 4 * (f2 + 32 * f3 + 256 * f4 + 16384 * f5 + 524288 * f6 + 2097152 * f7 + 4194304 * b30 + 8388608 * b31))"
    by (simp add: w)
  then have "take_bit 4 (drop_bit 4 w) = f1"
    by (rule field_extract) (use assms in simp_all)
  then show "take_bit 4 (drop_bit 4 w) = f1"
    by simp
  have "w = (f0 + 16 * f1) + 2 ^ 8 * (f2 + 2 ^ 5 * (f3 + 8 * f4 + 512 * f5 + 16384 * f6 + 65536 * f7 + 131072 * b30 + 262144 * b31))"
    by (simp add: w)
  then have "take_bit 5 (drop_bit 8 w) = f2"
    by (rule field_extract) (use assms in simp_all)
  then show "take_bit 5 (drop_bit 8 w) = f2"
    by simp
  have "w = (f0 + 16 * f1 + 256 * f2) + 2 ^ 13 * (f3 + 2 ^ 3 * (f4 + 64 * f5 + 2048 * f6 + 8192 * f7 + 16384 * b30 + 32768 * b31))"
    by (simp add: w)
  then have "take_bit 3 (drop_bit 13 w) = f3"
    by (rule field_extract) (use assms in simp_all)
  then show "take_bit 3 (drop_bit 13 w) = f3"
    by simp
  have "w = (f0 + 16 * f1 + 256 * f2 + 8192 * f3) + 2 ^ 16 * (f4 + 2 ^ 6 * (f5 + 32 * f6 + 128 * f7 + 256 * b30 + 512 * b31))"
    by (simp add: w)
  then have "take_bit 6 (drop_bit 16 w) = f4"
    by (rule field_extract) (use assms in simp_all)
  then show "take_bit 6 (drop_bit 16 w) = f4"
    by simp
  have "w = (f0 + 16 * f1 + 256 * f2 + 8192 * f3 + 65536 * f4) + 2 ^ 22 * (f5 + 2 ^ 5 * (f6 + 4 * f7 + 8 * b30 + 16 * b31))"
    by (simp add: w)
  then have "take_bit 5 (drop_bit 22 w) = f5"
    by (rule field_extract) (use assms in simp_all)
  then show "take_bit 5 (drop_bit 22 w) = f5"
    by simp
  have "w = (f0 + 16 * f1 + 256 * f2 + 8192 * f3 + 65536 * f4 + 4194304 * f5) + 2 ^ 27 * (f6 + 2 ^ 2 * (f7 + 2 * b30 + 4 * b31))"
    by (simp add: w)
  then have "take_bit 2 (drop_bit 27 w) = f6"
    by (rule field_extract) (use assms in simp_all)
  then show "take_bit 2 (drop_bit 27 w) = f6"
    by simp
  have "w = (f0 + 16 * f1 + 256 * f2 + 8192 * f3 + 65536 * f4 + 4194304 * f5 + 134217728 * f6) + 2 ^ 29 * (f7 + 2 ^ 1 * (b30 + 2 * b31))"
    by (simp add: w)
  then have "take_bit 1 (drop_bit 29 w) = f7"
    by (rule field_extract) (use assms in simp_all)
  then show "take_bit 1 (drop_bit 29 w) = f7"
    by simp
  have "w = (f0 + 16 * f1 + 256 * f2 + 8192 * f3 + 65536 * f4 + 4194304 * f5 + 134217728 * f6 + 536870912 * f7) + 2 ^ 30 * (b30 + 2 ^ 1 * (b31))"
    by (simp add: w)
  then have "take_bit 1 (drop_bit 30 w) = b30"
    by (rule field_extract) (use assms in simp_all)
  then show "take_bit 1 (drop_bit 30 w) = b30"
    by simp
  have "w = (f0 + 16 * f1 + 256 * f2 + 8192 * f3 + 65536 * f4 + 4194304 * f5 + 134217728 * f6 + 536870912 * f7 + 1073741824 * b30) + 2 ^ 31 * (b31 + 2 ^ 1 * (0))"
    by (simp add: w)
  then have "take_bit 1 (drop_bit 31 w) = b31"
    by (rule field_extract) (use assms in simp_all)
  then show "take_bit 1 (drop_bit 31 w) = b31"
    by simp
  show "0 \<le> w" and "w < 2 ^ 32"
    using assms by simp_all
qed

lemma read_hex_zeros: "read_hex (replicate j (CHR ''0'') @ s) = read_hex s"
  by (induction j) (simp_all add: read_hex_def read_hex_digit_def)

lemma hex8:
  assumes "0 \<le> w" "w < 2 ^ 32"
  shows "length (padStart 8 (CHR ''0'') (BigInt_toString 16 w)) = 8"
    and "set (padStart 8 (CHR ''0'') (BigInt_toString 16 w)) \<subseteq> set ''0123456789abcdef''"
    and "read_hex (padStart 8 (CHR ''0'') (BigInt_toString 16 w)) = w"
proof -
  have s: "BigInt_toString 16 w = digits 16 w"
    using assms by (simp add: BigInt_toString_def)
  have "w < 16 ^ 8"
    using assms by simp
  then have len: "length (digits 16 w) \<le> 8"
    using assms digits_length [of w 8] by simp
  then show "length (padStart 8 (CHR ''0'') (BigInt_toString 16 w)) = 8"
    by (simp add: padStart_def s)
  show "set (padStart 8 (CHR ''0'') (BigInt_toString 16 w)) \<subseteq> set ''0123456789abcdef''"
    using digits_hex [of w] assms by (auto simp: padStart_def s)
  show "read_hex (padStart 8 (CHR ''0'') (BigInt_toString 16 w)) = w"
    using digits_hex [of w] assms by (simp add: padStart_def s read_hex_zeros)
qed

lemma js_gt_JNum: "js_gt (JNum n) k \<longleftrightarrow> k < n"
  by (simp add: js_gt_def)

lemma js_gt_JUndefined: "\<not> js_gt JUndefined k"
  by (simp add: js_gt_def)

lemma pack32_accepts:
  assumes "\<not> js_gt (goles p) 8" "\<not> js_gt (asistencias p) 8" "\<not> js_gt (penaltisParados p) 4"
    and "\<not> js_gt (paradas p) 32" "\<not> js_gt (despejes p) 64" "\<not> js_gt (minutosJugados p) 90"
    and "\<not> js_gt (tarjetasAmarillas p) 2" "\<not> js_gt (tarjetasRojas p) 1"
  shows "pack32 p = Inr (''0x'' @ padStart 8 (CHR ''0'') (BigInt_toString 16 (pack_word p)))"
  using assms by (simp add: pack32_def)

lemma bit_of_field:
  fixes w :: int
  assumes "take_bit 1 (drop_bit n w) = of_bool c"
  shows "bit w n = c"
  using assms
  by (cases c) (simp_all add: bit_iff_odd_drop_bit take_bit_eq_mod odd_iff_mod_2_eq_one)

lemma pack32_masked_fields:
  assumes "goles p = JNum g" "g \<le> 8" "asistencias p = JNum a" "a \<le> 8"
    and "paradas p = JNum pa" "pa \<le> 32" "penaltisParados p = JNum pe" "pe \<le> 4"
    and "despejes p = JNum de" "de \<le> 64" "minutosJugados p = JNum m" "m \<le> 90"
    and "tarjetasAmarillas p = JNum ta" "ta \<le> 2" "tarjetasRojas p = JNum tr" "tr \<le> 1"
  shows "\<exists>s. pack32 p = Inr (''0x'' @ s) \<and> length s = 8 \<and> set s \<subseteq> set ''0123456789abcdef''
    \<and> 0 \<le> read_hex s \<and> read_hex s < 2 ^ 32
    \<and> take_bit 4 (read_hex s) = g mod 16
    \<and> take_bit 4 (drop_bit 4 (read_hex s)) = a mod 16
    \<and> take_bit 5 (drop_bit 8 (read_hex s)) = min pa 31 mod 32
    \<and> take_bit 3 (drop_bit 13 (read_hex s)) = pe mod 8
    \<and> take_bit 6 (drop_bit 16 (read_hex s)) = min de 63 mod 64
    \<and> take_bit 5 (drop_bit 22 (read_hex s)) = m div 3 mod 32
    \<and> take_bit 2 (drop_bit 27 (read_hex s)) = ta mod 4
    \<and> take_bit 1 (drop_bit 29 (read_hex s)) = tr mod 2
    \<and> bit (read_hex s) 30 = ToBoolean (porteriaCero p)
    \<and> bit (read_hex s) 31 = ToBoolean (ganoPartido p)"
proof -
  define w where "w = pack_word p"
  define s where "s = padStart 8 (CHR ''0'') (BigInt_toString 16 w)"
  let ?pc = "of_bool (ToBoolean (porteriaCero p)) :: int"
  let ?gp = "of_bool (ToBoolean (ganoPartido p)) :: int"
  have w: "w = g mod 16 + 16 * (a mod 16) + 256 * (min pa 31 mod 32) + 8192 * (pe mod 8)
      + 65536 * (min de 63 mod 64) + 4194304 * (m div 3 mod 32) + 134217728 * (ta mod 4)
      + 536870912 * (tr mod 2) + 1073741824 * ?pc + 2147483648 * ?gp"
    unfolding w_def using assms(1,3,5,7,9,11,13,15) by (rule pack_word_sum)
  have bounds: "0 \<le> g mod 16" "g mod 16 < 16" "0 \<le> a mod 16" "a mod 16 < 16"
    "0 \<le> min pa 31 mod 32" "min pa 31 mod 32 < 32" "0 \<le> pe mod 8" "pe mod 8 < 8"
    "0 \<le> min de 63 mod 64" "min de 63 mod 64 < 64" "0 \<le> m div 3 mod 32" "m div 3 mod 32 < 32"
    "0 \<le> ta mod 4" "ta mod 4 < 4" "0 \<le> tr mod 2" "tr mod 2 < 2"
    "0 \<le> ?pc" "?pc < 2" "0 \<le> ?gp" "?gp < 2"
    by simp_all
  note f = layout_fields [OF bounds w]
  have r: "read_hex s = w" and l: "length s = 8" and c: "set s \<subseteq> set ''0123456789abcdef''"
    unfolding s_def using hex8 [OF f(11,12)] by blast+
  have "pack32 p = Inr (''0x'' @ s)"
    unfolding s_def w_def using assms by (intro pack32_accepts) (simp_all add: js_gt_JNum)
  moreover note l c
  moreover have "0 \<le> read_hex s" "read_hex s < 2 ^ 32"
    unfolding r by (rule f)+
  moreover have "take_bit 4 (read_hex s) = g mod 16"
    "take_bit 4 (drop_bit 4 (read_hex s)) = a mod 16"
    "take_bit 5 (drop_bit 8 (read_hex s)) = min pa 31 mod 32"
    "take_bit 3 (drop_bit 13 (read_hex s)) = pe mod 8"
    "take_bit 6 (drop_bit 16 (read_hex s)) = min de 63 mod 64"
    "take_bit 5 (drop_bit 22 (read_hex s)) = m div 3 mod 32"
    "take_bit 2 (drop_bit 27 (read_hex s)) = ta mod 4"
    "take_bit 1 (drop_bit 29 (read_hex s)) = tr mod 2"
    unfolding r by (rule f)+
  moreover have "bit (read_hex s) 30 = ToBoolean (porteriaCero p)"
    "bit (read_hex s) 31 = ToBoolean (ganoPartido p)"
    unfolding r by (rule bit_of_field, rule f)+
  ultimately show ?thesis
    by blast
qed

lemma digits_16_values:
  "digits 16 0 = ''0''" "digits 16 2 = ''2''" "digits 16 1073741824 = ''40000000''"
  "digits 16 2147483648 = ''80000000''"
  by (simp_all add: digits.simps digit_char_def)

lemma digits_10_values: "digits 10 7 = ''7''"
  by (simp add: digits.simps digit_char_def)

lemma BigInt_toString_10_values:
  "BigInt_toString 10 1 = ''1''" "BigInt_toString 10 2 = ''2''" "BigInt_toString 10 3 = ''3''"
  "BigInt_toString 10 4 = ''4''" "BigInt_toString 10 7 = ''7''"
  "BigInt_toString 10 2000000000 = ''2000000000''"
  "BigInt_toString 10 2000000200 = ''2000000200''"
  "BigInt_toString 10 2000000202 = ''2000000202''"
  "BigInt_toString 10 2000000204 = ''2000000204''"
  "BigInt_toString 10 1999999990 = ''1999999990''"
  by (simp_all add: BigInt_toString_def digits.simps digit_char_def)

lemma BigInt_toString_16_values:
  "BigInt_toString 16 0 = ''0''" "BigInt_toString 16 2 = ''2''" "BigInt_toString 16 3 = ''3''"
  by (simp_all add: BigInt_toString_def digits.simps digit_char_def)

lemma replicate_7: "replicate 7 c = [c, c, c, c, c, c, c]"
  by (simp add: numeral_eq_Suc)

lemma pack32_zero_player:
  "pack32 (zero_player i) = Inr ''0x00000000''"
  "pack32 ((zero_player i)\<lparr>goles := JNum 3\<rparr>) = Inr ''0x00000003''"
  by (simp_all add: zero_player_def pack32_def pack_word_def js_gt_def js_bitand_def
      padStart_def BigInt_toString_16_values replicate_7)

lemma zero_player_sel: "id_field (zero_player i) = i" "goles (zero_player i) = JNum 0"
  by (simp_all add: zero_player_def)

lemma digits_16_small: "0 \<le> g \<Longrightarrow> g < 16 \<Longrightarrow> BigInt_toString 16 g = [digit_char g]"
  by (simp add: BigInt_toString_def digits.simps)

lemma pack32_only_goles:
  assumes "0 \<le> g" "g \<le> 8"
  shows "pack32 (only_goles i (JNum g)) = Inr (''0x0000000'' @ [digit_char g])"
proof -
  have "js_bitand (Num g) 0x0F = g"
    using assms by (simp add: js_bitand_numerals)
  then have "pack_word (only_goles i (JNum g)) = g"
    by (simp add: pack_word_def only_goles_def js_bitand_NaN)
  then show ?thesis
    using assms
    by (simp add: pack32_def only_goles_def js_gt_def digits_16_small padStart_def replicate_7)
qed

section \<open>What one submission and one batch do\<close>

lemma signed_append: "signed (xs @ ys) = signed xs @ signed ys"
  by (induction xs rule: signed.induct) simp_all

lemma sent_append: "sent (xs @ ys) = sent xs @ sent ys"
  by (induction xs rule: sent.induct) simp_all

lemma signed_replicate_Send [simp]: "signed (replicate j (Send tx)) = []"
  by (induction j) simp_all

lemma sent_replicate_Send [simp]: "sent (replicate j (Send tx)) = replicate j tx"
  by (induction j) simp_all

lemma attempt_effect:
  assumes "attempt w tx i s = (res, s')"
  shows "\<exists>j. trace s' = trace s @ Sign tx # replicate j (Send tx) \<and> j \<le> 1
      \<and> (\<not> isl res \<longrightarrow> j = 1) \<and> blockCalls s' = blockCalls s
      \<and> attempts s' = Suc (attempts s)
      \<and> (\<exists>ls. console s' = console s @ ls \<and> filter summary_line ls = [])"
proof (cases "attempt_reply w (attempts s)")
  case SignRejects
  with assms show ?thesis
    by (intro exI [of _ 0]) (auto simp: attempt_def)
next
  case SendRejects
  with assms show ?thesis
    by (intro exI [of _ 1]) (auto simp: attempt_def)
next
  case (Receipt g d)
  with assms show ?thesis
    by (intro exI [of _ 1]) (auto simp: attempt_def)
qed

lemma retry_effect:
  "retry w tx i r a s = (res, s') \<Longrightarrow>
    \<exists>new k j. trace s' = trace s @ new \<and> signed new = replicate k tx \<and> sent new = replicate j tx
      \<and> 0 < k \<and> j \<le> k \<and> (\<not> isl res \<longrightarrow> 0 < j) \<and> blockCalls s' = blockCalls s
      \<and> attempts s' = attempts s + k \<and> k \<le> Suc r
      \<and> (\<exists>ls. console s' = console s @ ls \<and> filter summary_line ls = [])"
proof (induction r arbitrary: a s res s')
  case 0
  then have "attempt w tx i s = (res, s')"
    by simp
  from attempt_effect [OF this] obtain j ls where
    j: "trace s' = trace s @ Sign tx # replicate j (Send tx)" "j \<le> 1" "\<not> isl res \<longrightarrow> j = 1"
      "blockCalls s' = blockCalls s" "attempts s' = Suc (attempts s)"
      "console s' = console s @ ls" "filter summary_line ls = []"
    by blast
  show ?case
    by (rule exI [of _ "Sign tx # replicate j (Send tx)"], rule exI [of _ 1], rule exI [of _ j])
      (use j in \<open>auto simp: signed_append sent_append\<close>)
next
  case (Suc r)
  obtain res1 s1 where a1: "attempt w tx i s = (res1, s1)"
    by (cases "attempt w tx i s")
  from attempt_effect [OF a1] obtain j ls where
    j: "trace s1 = trace s @ Sign tx # replicate j (Send tx)" "j \<le> 1" "\<not> isl res1 \<longrightarrow> j = 1"
      "blockCalls s1 = blockCalls s" "attempts s1 = Suc (attempts s)"
      "console s1 = console s @ ls" "filter summary_line ls = []"
    by blast
  have sg: "signed (Sign tx # replicate j (Send tx)) = [tx]"
    and st: "sent (Sign tx # replicate j (Send tx)) = replicate j tx"
    by simp_all
  show ?case
  proof (cases res1)
    case (Inr rcpt)
    with Suc.prems a1 have "res = res1" "s' = s1"
      by simp_all
    with j Inr sg st show ?thesis
      by (intro exI [of _ "Sign tx # replicate j (Send tx)"] exI [of _ 1] exI [of _ j]) auto
  next
    case (Inl e)
    let ?s2 = "s1\<lparr>console := console s1 @ [RetryLine i a]\<rparr>"
    from Inl Suc.prems a1 have "retry w tx i r (a + 1) ?s2 = (res, s')"
      by simp
    from Suc.IH [OF this] obtain new k j' ls' where
      n: "trace s' = trace ?s2 @ new" "signed new = replicate k tx" "sent new = replicate j' tx"
        "0 < k" "j' \<le> k" "\<not> isl res \<longrightarrow> 0 < j'" "blockCalls s' = blockCalls ?s2"
        "attempts s' = attempts ?s2 + k" "k \<le> Suc r"
        "console s' = console ?s2 @ ls'" "filter summary_line ls' = []"
      by blast
    show ?thesis
    proof (intro exI conjI)
      show "trace s' = trace s @ (Sign tx # replicate j (Send tx)) @ new"
        using n(1) j(1) by simp
      show "signed ((Sign tx # replicate j (Send tx)) @ new) = replicate (Suc k) tx"
        unfolding signed_append sg n(2) by simp
      show "sent ((Sign tx # replicate j (Send tx)) @ new) = replicate (j + j') tx"
        unfolding sent_append st n(3) by (simp add: replicate_add)
      show "0 < Suc k" by simp
      show "j + j' \<le> Suc k" using j(2) n(5) by simp
      show "\<not> isl res \<longrightarrow> 0 < j + j'" using n(6) by simp
      show "blockCalls s' = blockCalls s" using n(7) j(4) by simp
      show "attempts s' = attempts s + Suc k" using n(8) j(5) by simp
      show "Suc k \<le> Suc (Suc r)" using n(9) by simp
      show "console s' = console s @ (ls @ [RetryLine i a] @ ls')" using n(10) j(6) by simp
      show "filter summary_line (ls @ [RetryLine i a] @ ls') = []" using n(11) j(7) by simp
    qed
  qed
qed

lemma sendPacked_effect:
  assumes "sendPacked w h i n s = (res, s')"
  shows "\<exists>new k j tx. trace s' = trace s @ new \<and> signed new = replicate k tx
      \<and> sent new = replicate j tx \<and> j \<le> k \<and> k \<le> 4
      \<and> (0 < k \<longrightarrow> nonce tx = n \<and> fee_ok w (blockCalls s) tx)
      \<and> (\<not> isl res \<longrightarrow> 0 < j \<and> blockCalls s' = Suc (blockCalls s))
      \<and> (\<exists>ls. console s' = console s @ ls \<and> filter summary_line ls = [])"
proof -
  let ?s1 = "s\<lparr>blockCalls := blockCalls s + 1, trace := trace s @ [GetBlock]\<rparr>"
  have early: ?thesis if "trace s' = trace s @ new" "signed new = []" "sent new = []"
    "isl res" "console s' = console s" for new
    by (rule exI [of _ new], rule exI [of _ 0], rule exI [of _ 0]) (use that in simp)
  show ?thesis
  proof (cases "encodeABI w i h")
    case None
    with assms show ?thesis
      by (intro early [of "[]"]) (auto simp: sendPacked_def)
  next
    case (Some encoded)
    show ?thesis
    proof (cases "getBlock w (blockCalls s)")
      case None
      with assms Some show ?thesis
        by (intro early [of "[GetBlock]"]) (auto simp: sendPacked_def)
    next
      case block: (Some v)
      show ?thesis
      proof (cases "BigInt v")
        case (Inl e)
        with assms Some block have "res = Inl e" "s' = ?s1"
          by (simp_all add: sendPacked_def)
        then show ?thesis
          by (intro early [of "[GetBlock]"]) simp_all
      next
        case (Inr base)
        define tx where "tx =
          \<lparr>tx_from = acct_address w, tx_to = league_address w, gas = GAS_LIMIT,
            maxPriorityFeePerGas = BigInt_toString 10 (2 * 10 ^ 9),
            maxFeePerGas = BigInt_toString 10 (base * 2 + 2 * 10 ^ 9), nonce = n,
            data = encoded\<rparr>"
        have "retry w tx i 3 1 ?s1 = (res, s')"
          using assms Some block Inr by (simp add: sendPacked_def tx_def Let_def)
        from retry_effect [OF this] obtain new k j ls where
          r: "trace s' = trace ?s1 @ new" "signed new = replicate k tx"
            "sent new = replicate j tx" "0 < k" "j \<le> k" "\<not> isl res \<longrightarrow> 0 < j"
            "blockCalls s' = blockCalls ?s1" "k \<le> Suc 3"
            "console s' = console ?s1 @ ls" "filter summary_line ls = []"
          by blast
        have fee: "fee_ok w (blockCalls s) tx"
          using block Inr by (simp add: fee_ok_def tx_def GAS_LIMIT_def mult.commute)
        have "nonce tx = n"
          by (simp add: tx_def)
        with r fee show ?thesis
          by (intro exI [of _ "GetBlock # new"] exI [of _ k] exI [of _ j] exI [of _ tx]) simp
      qed
    qed
  qed
qed

lemma blocks_bounds: "blocks P n m txs \<Longrightarrow> n \<le> m"
  by (induction rule: blocks.induct) simp_all

lemma blocks_member:
  "blocks P n m txs \<Longrightarrow> tx \<in> set txs \<Longrightarrow> n \<le> nonce tx \<and> nonce tx < m \<and> P (nonce tx) tx"
proof (induction rule: blocks.induct)
  case (blocks_Nil n)
  then show ?case by simp
next
  case (blocks_Cons t n k m rest)
  from blocks_bounds [OF blocks_Cons(4)] have "Suc n \<le> m" .
  with blocks_Cons show ?case
    by (auto split: if_splits)
qed

lemma blocks_same_request:
  "blocks P n m txs \<Longrightarrow> tx \<in> set txs \<Longrightarrow> tx' \<in> set txs \<Longrightarrow> nonce tx = nonce tx' \<Longrightarrow> tx = tx'"
proof (induction rule: blocks.induct)
  case (blocks_Nil n)
  then show ?case by simp
next
  case (blocks_Cons t n k m rest)
  have later: "Suc n \<le> nonce x" if "x \<in> set rest" for x
    using blocks_member [OF blocks_Cons(4) that] by simp
  from blocks_Cons(6,7) consider "tx = t" "tx' = t" | "tx = t" "tx' \<in> set rest"
    | "tx \<in> set rest" "tx' = t" | "tx \<in> set rest" "tx' \<in> set rest"
    by (auto split: if_splits)
  then show ?case
  proof cases
    case 1
    then show ?thesis by simp
  next
    case 2
    with later [of tx'] blocks_Cons(1,8) show ?thesis by simp
  next
    case 3
    with later [of tx] blocks_Cons(1,8) show ?thesis by simp
  next
    case 4
    with blocks_Cons(5,8) show ?thesis by simp
  qed
qed

lemma blocks_mono:
  "blocks P n m txs \<Longrightarrow> (\<And>k tx. n \<le> k \<Longrightarrow> P k tx \<Longrightarrow> Q k tx) \<Longrightarrow> blocks Q n m txs"
proof (induction rule: blocks.induct)
  case (blocks_Nil n)
  show ?case by (rule blocks.blocks_Nil)
next
  case (blocks_Cons t n k m rest)
  have "blocks Q (Suc n) m rest"
    by (rule blocks_Cons.IH) (simp add: blocks_Cons.prems)
  with blocks_Cons(1-3) blocks_Cons.prems [of n t] show ?case
    by (intro blocks.blocks_Cons) simp_all
qed

lemma remdups_adj_replicate_append:
  assumes "0 < k" "ys = [] \<or> hd ys \<noteq> x"
  shows "remdups_adj (replicate k x @ ys) = x # remdups_adj ys"
  using assms
proof (induction k)
  case 0
  then show ?case by simp
next
  case (Suc k)
  show ?case
  proof (cases k)
    case 0
    with Suc.prems show ?thesis
      by (cases ys) auto
  next
    case (Suc k')
    with Suc.IH Suc.prems show ?thesis
      by simp
  qed
qed

lemma blocks_nonces: "blocks P n m txs \<Longrightarrow> remdups_adj (map nonce txs) = [n..<m]"
proof (induction rule: blocks.induct)
  case (blocks_Nil n)
  show ?case by simp
next
  case (blocks_Cons t n k m rest)
  have "map nonce rest = [] \<or> hd (map nonce rest) \<noteq> n"
  proof (cases rest)
    case Nil
    then show ?thesis by simp
  next
    case (Cons x xs)
    with blocks_member [OF blocks_Cons(4), of x] show ?thesis
      by simp
  qed
  then have "remdups_adj (replicate k n @ map nonce rest) = n # [Suc n..<m]"
    using blocks_Cons(3,5) by (simp add: remdups_adj_replicate_append)
  moreover have "n < m"
    using blocks_bounds [OF blocks_Cons(4)] by simp
  ultimately show ?case
    using blocks_Cons(1) by (simp add: upt_conv_Cons)
qed

lemma batch_effect:
  "batch w ps n s = (res, s') \<Longrightarrow>
    \<exists>new m m'. trace s' = trace s @ new
      \<and> blocks (\<lambda>k. fee_ok w (blockCalls s + (k - n))) n m (signed new)
      \<and> blocks (\<lambda>k. fee_ok w (blockCalls s + (k - n))) n m' (sent new)
      \<and> set (sent new) \<subseteq> set (signed new)
      \<and> (\<forall>n'. res = Inr n' \<longrightarrow>
            m = n' \<and> m' = n' \<and> n' = n + length (filter (\<lambda>p. goles p \<noteq> JUndefined) ps))
      \<and> (\<exists>ls. console s' = console s @ ls \<and> filter summary_line ls = [])"
proof (induction ps arbitrary: n s)
  case Nil
  then show ?case
    by (intro exI [of _ "[]"] exI [of _ n]) (auto intro: blocks_Nil)
next
  case (Cons p ps)
  let ?P = "\<lambda>k. fee_ok w (blockCalls s + (k - n))"
  have stop: ?case if "trace s' = trace s" "isl res" "console s' = console s"
    by (rule exI [of _ "[]"], rule exI [of _ n], rule exI [of _ n])
      (use that in \<open>auto intro: blocks_Nil\<close>)
  show ?case
  proof (cases "goles p = JUndefined")
    case True
    with Cons.prems have "batch w ps n s = (res, s')"
      by simp
    from Cons.IH [OF this] True show ?thesis
      by simp
  next
    case present: False
    show ?thesis
    proof (cases "pack32 p")
      case (Inl e)
      with Cons.prems present show ?thesis
        by (intro stop) auto
    next
      case (Inr packed)
      obtain res1 s1 where sp: "sendPacked w packed (id_field p) n s = (res1, s1)"
        by (cases "sendPacked w packed (id_field p) n s")
      from sendPacked_effect [OF sp] obtain new k j tx ls where
        e: "trace s1 = trace s @ new" "signed new = replicate k tx" "sent new = replicate j tx"
          "j \<le> k" "0 < k \<longrightarrow> nonce tx = n \<and> fee_ok w (blockCalls s) tx"
          "\<not> isl res1 \<longrightarrow> 0 < j \<and> blockCalls s1 = Suc (blockCalls s)"
          "console s1 = console s @ ls" "filter summary_line ls = []"
        by blast
      have one: "blocks ?P n (if i = 0 then n else Suc n) (replicate i tx)" if "i \<le> k" for i
      proof (cases "i = 0")
        case True
        then show ?thesis by (simp add: blocks_Nil)
      next
        case False
        with that e(5) have "blocks ?P n (Suc n) (replicate i tx @ [])"
          by (intro blocks_Cons blocks_Nil) simp_all
        with False show ?thesis by simp
      qed
      show ?thesis
      proof (cases res1)
        case failed: (Inl err)
        with Cons.prems present Inr sp have "res = Inl err" "s' = s1"
          by simp_all
        with e one [of k] one [of j] show ?thesis
          by (intro exI [of _ new] exI [of _ "if k = 0 then n else Suc n"]
              exI [of _ "if j = 0 then n else Suc n"]) auto
      next
        case ok: (Inr rcpt)
        with Cons.prems present Inr sp have "batch w ps (n + 1) s1 = (res, s')"
          by simp
        from Cons.IH [OF this] obtain new2 m m' ls2 where
          r: "trace s' = trace s1 @ new2"
            "blocks (\<lambda>k. fee_ok w (blockCalls s1 + (k - (n + 1)))) (n + 1) m (signed new2)"
            "blocks (\<lambda>k. fee_ok w (blockCalls s1 + (k - (n + 1)))) (n + 1) m' (sent new2)"
            "set (sent new2) \<subseteq> set (signed new2)"
            "\<forall>n'. res = Inr n' \<longrightarrow> m = n' \<and> m' = n'
              \<and> n' = n + 1 + length (filter (\<lambda>p. goles p \<noteq> JUndefined) ps)"
            "console s' = console s1 @ ls2" "filter summary_line ls2 = []"
          by blast
        from ok e(4,6) have pos: "0 < j" "0 < k" and bc: "blockCalls s1 = Suc (blockCalls s)"
          by simp_all
        have shift: "blocks ?P (Suc n) b txs"
          if "blocks (\<lambda>k. fee_ok w (blockCalls s1 + (k - (n + 1)))) (n + 1) b txs" for b txs
        proof -
          have "blocks ?P (n + 1) b txs"
            using that
          proof (rule blocks_mono)
            fix k t
            assume "n + 1 \<le> k" "fee_ok w (blockCalls s1 + (k - (n + 1))) t"
            moreover from \<open>n + 1 \<le> k\<close> have "blockCalls s1 + (k - (n + 1)) = blockCalls s + (k - n)"
              using bc by simp
            ultimately show "fee_ok w (blockCalls s + (k - n)) t"
              by simp
          qed
          then show ?thesis by simp
        qed
        have here: "nonce tx = n" "?P n tx"
          using e(5) pos by simp_all
        have "blocks ?P n m (replicate k tx @ signed new2)"
          using here pos(2) shift [OF r(2)] by (rule blocks_Cons)
        moreover have "blocks ?P n m' (replicate j tx @ sent new2)"
          using here pos(1) shift [OF r(3)] by (rule blocks_Cons)
        moreover have "set (replicate j tx @ sent new2) \<subseteq> set (replicate k tx @ signed new2)"
          using pos r(4) by auto
        moreover have "trace s' = trace s @ new @ new2"
          using r(1) e(1) by simp
        moreover have "console s' = console s @ ls @ ls2" "filter summary_line (ls @ ls2) = []"
          using r(6,7) e(7,8) by simp_all
        ultimately show ?thesis
          using r(5) present e(2,3)
          by (intro exI [of _ "new @ new2"] exI [of _ m] exI [of _ m'])
            (simp add: signed_append sent_append)
      qed
    qed
  qed
qed

lemma batch_append:
  "batch w (xs @ ys) n s =
     (case batch w xs n s of (Inl e, s') \<Rightarrow> (Inl e, s') | (Inr n', s') \<Rightarrow> batch w ys n' s')"
  by (induction xs arbitrary: n s) (auto split: sum.splits prod.splits)


lemma main_effect:
  assumes "getTransactionCount w = Some n0" and "main w stats = (res, s)"
  shows "\<exists>m m'. blocks (\<lambda>k. fee_ok w (k - n0)) n0 m (signed (trace s))
      \<and> blocks (\<lambda>k. fee_ok w (k - n0)) n0 m' (sent (trace s))
      \<and> set (sent (trace s)) \<subseteq> set (signed (trace s))
      \<and> (res = Inr () \<longrightarrow> m' = n0 + length (filter (\<lambda>p. goles p \<noteq> JUndefined) stats))
      \<and> (isl res \<longrightarrow> filter summary_line (console s) = [])"
proof -
  obtain r1 s1 where b: "batch w stats n0 initial_state = (r1, s1)"
    by (cases "batch w stats n0 initial_state")
  from batch_effect [OF b] obtain new m m' ls where
    e: "trace s1 = trace initial_state @ new"
      "blocks (\<lambda>k. fee_ok w (blockCalls initial_state + (k - n0))) n0 m (signed new)"
      "blocks (\<lambda>k. fee_ok w (blockCalls initial_state + (k - n0))) n0 m' (sent new)"
      "set (sent new) \<subseteq> set (signed new)"
      "\<forall>n'. r1 = Inr n' \<longrightarrow>
        m = n' \<and> m' = n' \<and> n' = n0 + length (filter (\<lambda>p. goles p \<noteq> JUndefined) stats)"
      "console s1 = console initial_state @ ls" "filter summary_line ls = []"
    by blast
  have t: "trace s = trace s1" and r: "res = Inr () \<longrightarrow> (\<exists>n'. r1 = Inr n')"
    and c: "isl res \<longrightarrow> console s = console s1"
    using assms b by (auto simp: main_def Let_def split: sum.splits)
  from e t r c show ?thesis
    by (intro exI [of _ m] exI [of _ m']) (auto simp: initial_state_def)
qed

lemma retry_exhausted:
  "(\<forall>k \<le> r. \<forall>g d. attempt_reply w (attempts s + k) \<noteq> Receipt g d)
    \<Longrightarrow> isl (fst (retry w tx i r a s))"
proof (induction r arbitrary: a s)
  case 0
  then have "\<forall>g d. attempt_reply w (attempts s) \<noteq> Receipt g d"
    by simp
  then show ?case
    by (cases "attempt_reply w (attempts s)") (simp_all add: attempt_def)
next
  case (Suc r)
  obtain res1 s1 where a1: "attempt w tx i s = (res1, s1)"
    by (cases "attempt w tx i s")
  from Suc.prems have "\<forall>g d. attempt_reply w (attempts s) \<noteq> Receipt g d"
    by (metis add.right_neutral le0)
  with a1 have f: "isl res1" "attempts s1 = Suc (attempts s)"
    by (cases "attempt_reply w (attempts s)"; auto simp: attempt_def)+
  let ?s2 = "s1\<lparr>console := console s1 @ [RetryLine i a]\<rparr>"
  have "\<forall>k \<le> r. \<forall>g d. attempt_reply w (attempts ?s2 + k) \<noteq> Receipt g d"
  proof (intro allI impI)
    fix k g d
    assume "k \<le> r"
    then have "Suc k \<le> Suc r" by simp
    with Suc.prems have "attempt_reply w (attempts s + Suc k) \<noteq> Receipt g d"
      by blast
    then show "attempt_reply w (attempts ?s2 + k) \<noteq> Receipt g d"
      using f(2) by simp
  qed
  from Suc.IH [OF this] have "isl (fst (retry w tx i r (a + 1) ?s2))" .
  with a1 f(1) show ?case
    by (cases res1) simp_all
qed

lemma sendPacked_exhausted:
  assumes "\<forall>k < 4. \<forall>g d. attempt_reply w (attempts s + k) \<noteq> Receipt g d"
  shows "isl (fst (sendPacked w h i n s))"
proof -
  have "isl (fst (retry w tx i 3 1 (s\<lparr>blockCalls := blockCalls s + 1, trace := trace s @ [GetBlock]\<rparr>)))"
    for tx
    using assms by (intro retry_exhausted) simp
  then show ?thesis
    by (simp add: sendPacked_def Let_def split: option.splits sum.splits)
qed

lemma main_aborts:
  assumes "getTransactionCount w = Some n0" and "batch w stats n0 initial_state = (Inl e, s)"
  shows "main w stats = (Inl e, s)"
  using assms by (simp add: main_def)

lemma main_world1_stats1:
  "main world1 stats1 =
    (Inr (),
     \<lparr>totalGas = 150000, latencies = [12, 12, 12],
      console =
        [SubmittedLine (JNum 1) 50000 12, RetryLine (JNum 2) 1, RetryLine (JNum 2) 2,
         SubmittedLine (JNum 2) 50000 12, SubmittedLine (JNum 4) 50000 12, BatchTimeLine,
         SummaryHeader, ProcessedLine 4, TotalGasLine 150000, MeanGasLine (Ratio 150000 4),
         MeanLatencyLine (Ratio 36 4)],
      trace =
        [GetBlock, Sign (tx1 5 ''2000000200'' ''1:0x00000000''),
         Send (tx1 5 ''2000000200'' ''1:0x00000000''),
         GetBlock, Sign (tx1 6 ''2000000202'' ''2:0x00000003''),
         Send (tx1 6 ''2000000202'' ''2:0x00000003''),
         Sign (tx1 6 ''2000000202'' ''2:0x00000003''),
         Send (tx1 6 ''2000000202'' ''2:0x00000003''),
         Sign (tx1 6 ''2000000202'' ''2:0x00000003''),
         Send (tx1 6 ''2000000202'' ''2:0x00000003''),
         GetBlock, Sign (tx1 7 ''2000000204'' ''4:0x00000000''),
         Send (tx1 7 ''2000000204'' ''4:0x00000000'')],
      blockCalls = 3, attempts = 5\<rparr>)"
  by (simp add: main_def stats1_def world1_def initial_state_def pack32_zero_player
      sendPacked_def attempt_def GAS_LIMIT_def js_divide_def tx1_def numeral_3_eq_3
      zero_player_sel
      BigInt_toString_10_values Let_def)

lemma batch_first_record:
  "batch world1 [zero_player (JNum 1)] 5 initial_state = (Inr 6, state_after_first)"
  "batch world_down [zero_player (JNum 1)] 5 initial_state = (Inr 6, state_after_first)"
  by (simp_all add: world1_def world_down_def initial_state_def pack32_zero_player
      sendPacked_def attempt_def GAS_LIMIT_def tx1_def numeral_3_eq_3 zero_player_sel
      BigInt_toString_10_values Let_def state_after_first_def)

section \<open>Properties of the specification\<close>

text \<open>
  C1. For a record whose numeric fields are within their domains (so that it passes the
  hard-limit checks) and whose flags are booleans, \<open>pack32\<close> returns \<open>0x\<close> followed by
  exactly eight lowercase hexadecimal characters, and the 32-bit number they spell holds
  goles in bits 0-3, asistencias in bits 4-7, paradas clamped to 31 in bits 8-12,
  penaltisParados in bits 13-15, despejes clamped to 63 in bits 16-21,
  \<open>minutosJugados div 3\<close> in bits 22-26, tarjetasAmarillas in bits 27-28, tarjetasRojas in
  bit 29, porteriaCero in bit 30 and ganoPartido in bit 31.
\<close>

theorem pack32_bit_layout:
  assumes "goles p = JNum g" "0 \<le> g" "g \<le> 8"
    and "asistencias p = JNum a" "0 \<le> a" "a \<le> 8"
    and "paradas p = JNum pa" "0 \<le> pa" "pa \<le> 32"
    and "penaltisParados p = JNum pe" "0 \<le> pe" "pe \<le> 4"
    and "despejes p = JNum de" "0 \<le> de" "de \<le> 64"
    and "minutosJugados p = JNum m" "0 \<le> m" "m \<le> 90"
    and "tarjetasAmarillas p = JNum ta" "0 \<le> ta" "ta \<le> 2"
    and "tarjetasRojas p = JNum tr" "0 \<le> tr" "tr \<le> 1"
    and "porteriaCero p = JBool pc" "ganoPartido p = JBool gp"
  shows "\<exists>s. pack32 p = Inr (''0x'' @ s) \<and> length s = 8 \<and> set s \<subseteq> set ''0123456789abcdef''
    \<and> 0 \<le> read_hex s \<and> read_hex s < 2 ^ 32
    \<and> take_bit 4 (read_hex s) = g
    \<and> take_bit 4 (drop_bit 4 (read_hex s)) = a
    \<and> take_bit 5 (drop_bit 8 (read_hex s)) = min pa 31
    \<and> take_bit 3 (drop_bit 13 (read_hex s)) = pe
    \<and> take_bit 6 (drop_bit 16 (read_hex s)) = min de 63
    \<and> take_bit 5 (drop_bit 22 (read_hex s)) = m div 3
    \<and> take_bit 2 (drop_bit 27 (read_hex s)) = ta
    \<and> take_bit 1 (drop_bit 29 (read_hex s)) = tr
    \<and> bit (read_hex s) 30 = pc
    \<and> bit (read_hex s) 31 = gp"
proof -
  have "g mod 16 = g" "a mod 16 = a" "min pa 31 mod 32 = min pa 31" "pe mod 8 = pe"
    "min de 63 mod 64 = min de 63" "m div 3 mod 32 = m div 3" "ta mod 4 = ta" "tr mod 2 = tr"
    using assms by simp_all
  then show ?thesis
    using pack32_masked_fields [of p g a pa pe de m ta tr] assms by simp
qed

theorem pack32_bit_layout_witness:
  "\<exists>s. pack32 example_player = Inr (''0x'' @ s) \<and> length s = 8
    \<and> set s \<subseteq> set ''0123456789abcdef''
    \<and> 0 \<le> read_hex s \<and> read_hex s < 2 ^ 32
    \<and> take_bit 4 (read_hex s) = 2
    \<and> take_bit 4 (drop_bit 4 (read_hex s)) = 1
    \<and> take_bit 5 (drop_bit 8 (read_hex s)) = min 5 31
    \<and> take_bit 3 (drop_bit 13 (read_hex s)) = 0
    \<and> take_bit 6 (drop_bit 16 (read_hex s)) = min 10 63
    \<and> take_bit 5 (drop_bit 22 (read_hex s)) = 90 div 3
    \<and> take_bit 2 (drop_bit 27 (read_hex s)) = 0
    \<and> take_bit 1 (drop_bit 29 (read_hex s)) = 0
    \<and> bit (read_hex s) 30 = False
    \<and> bit (read_hex s) 31 = True"
  by (rule pack32_bit_layout [of example_player 2 1 5 0 10 90 0 0 False True])
    (simp_all add: example_player_def)

text \<open>
  C2, as amended. \<open>pack32\<close> throws exactly when one of the eight comparisons of the source
  holds (goles > 8, asistencias > 8, penaltisParados > 4, paradas > 32, despejes > 64,
  minutosJugados > 90, tarjetasAmarillas > 2, tarjetasRojas > 1). What it throws is a plain
  \<^verbatim>\<open>Error\<close> whose message is the label of the first check that fails, in the order of
  the source, followed by \<open>id=\<close> and the record id (an id that prints in plain decimal).
  There are six labels for eight fields: paradas and despejes share one, and so do the two
  card fields. A record whose fields sit at the limits is accepted.
\<close>

theorem pack32_rejects_iff:
  "(isl (pack32 p) \<longleftrightarrow>
      js_gt (goles p) 8 \<or> js_gt (asistencias p) 8 \<or> js_gt (penaltisParados p) 4
      \<or> js_gt (paradas p) 32 \<or> js_gt (despejes p) 64 \<or> js_gt (minutosJugados p) 90
      \<or> js_gt (tarjetasAmarillas p) 2 \<or> js_gt (tarjetasRojas p) 1)
   \<and> (isl (pack32 p) \<and> safe_to_print (id_field p) \<longrightarrow>
      (\<exists>label. pack32 p = Inl (Error (label @ '' id='' @ ToString (id_field p)))
        \<and> (label = ''goles>8'' \<and> js_gt (goles p) 8
          \<or> label = ''asis>8'' \<and> \<not> js_gt (goles p) 8 \<and> js_gt (asistencias p) 8
          \<or> label = ''penaltisParados>4'' \<and> \<not> js_gt (goles p) 8
              \<and> \<not> js_gt (asistencias p) 8 \<and> js_gt (penaltisParados p) 4
          \<or> label = ''paradas/despejes fuera de rango'' \<and> \<not> js_gt (goles p) 8
              \<and> \<not> js_gt (asistencias p) 8 \<and> \<not> js_gt (penaltisParados p) 4
              \<and> (js_gt (paradas p) 32 \<or> js_gt (despejes p) 64)
          \<or> label = ''minutos>90'' \<and> \<not> js_gt (goles p) 8
              \<and> \<not> js_gt (asistencias p) 8 \<and> \<not> js_gt (penaltisParados p) 4
              \<and> \<not> js_gt (paradas p) 32 \<and> \<not> js_gt (despejes p) 64
              \<and> js_gt (minutosJugados p) 90
          \<or> label = ''tarjetas fuera de rango'' \<and> \<not> js_gt (goles p) 8
              \<and> \<not> js_gt (asistencias p) 8 \<and> \<not> js_gt (penaltisParados p) 4
              \<and> \<not> js_gt (paradas p) 32 \<and> \<not> js_gt (despejes p) 64
              \<and> \<not> js_gt (minutosJugados p) 90
              \<and> (js_gt (tarjetasAmarillas p) 2 \<or> js_gt (tarjetasRojas p) 1))))
   \<and> (goles p = JNum 8 \<and> \<not> js_gt (asistencias p) 8 \<and> penaltisParados p = JNum 4
        \<and> paradas p = JNum 32 \<and> despejes p = JNum 64 \<and> minutosJugados p = JNum 90
        \<and> tarjetasAmarillas p = JNum 2 \<and> tarjetasRojas p = JNum 1
      \<longrightarrow> \<not> isl (pack32 p))"
proof (intro conjI)
  show "isl (pack32 p) \<longleftrightarrow>
      js_gt (goles p) 8 \<or> js_gt (asistencias p) 8 \<or> js_gt (penaltisParados p) 4
      \<or> js_gt (paradas p) 32 \<or> js_gt (despejes p) 64 \<or> js_gt (minutosJugados p) 90
      \<or> js_gt (tarjetasAmarillas p) 2 \<or> js_gt (tarjetasRojas p) 1"
    by (simp add: pack32_def)
  then show "goles p = JNum 8 \<and> \<not> js_gt (asistencias p) 8 \<and> penaltisParados p = JNum 4
        \<and> paradas p = JNum 32 \<and> despejes p = JNum 64 \<and> minutosJugados p = JNum 90
        \<and> tarjetasAmarillas p = JNum 2 \<and> tarjetasRojas p = JNum 1
      \<longrightarrow> \<not> isl (pack32 p)"
    by (simp add: js_gt_JNum)
  show "isl (pack32 p) \<and> safe_to_print (id_field p) \<longrightarrow>
      (\<exists>label. pack32 p = Inl (Error (label @ '' id='' @ ToString (id_field p)))
        \<and> (label = ''goles>8'' \<and> js_gt (goles p) 8
          \<or> label = ''asis>8'' \<and> \<not> js_gt (goles p) 8 \<and> js_gt (asistencias p) 8
          \<or> label = ''penaltisParados>4'' \<and> \<not> js_gt (goles p) 8
              \<and> \<not> js_gt (asistencias p) 8 \<and> js_gt (penaltisParados p) 4
          \<or> label = ''paradas/despejes fuera de rango'' \<and> \<not> js_gt (goles p) 8
              \<and> \<not> js_gt (asistencias p) 8 \<and> \<not> js_gt (penaltisParados p) 4
              \<and> (js_gt (paradas p) 32 \<or> js_gt (despejes p) 64)
          \<or> label = ''minutos>90'' \<and> \<not> js_gt (goles p) 8
              \<and> \<not> js_gt (asistencias p) 8 \<and> \<not> js_gt (penaltisParados p) 4
              \<and> \<not> js_gt (paradas p) 32 \<and> \<not> js_gt (despejes p) 64
              \<and> js_gt (minutosJugados p) 90
          \<or> label = ''tarjetas fuera de rango'' \<and> \<not> js_gt (goles p) 8
              \<and> \<not> js_gt (asistencias p) 8 \<and> \<not> js_gt (penaltisParados p) 4
              \<and> \<not> js_gt (paradas p) 32 \<and> \<not> js_gt (despejes p) 64
              \<and> \<not> js_gt (minutosJugados p) 90
              \<and> (js_gt (tarjetasAmarillas p) 2 \<or> js_gt (tarjetasRojas p) 1)))"
    by (simp add: pack32_def)
qed

theorem pack32_rejects_iff_witness:
  "\<not> isl (pack32 (limit_player (JNum 7)))
    \<and> safe_to_print (id_field ((limit_player (JNum 7))\<lparr>despejes := JNum 65\<rparr>))
    \<and> isl (pack32 ((limit_player (JNum 7))\<lparr>despejes := JNum 65\<rparr>))
    \<and> pack32 ((limit_player (JNum 7))\<lparr>despejes := JNum 65\<rparr>)
        = Inl (Error ''paradas/despejes fuera de rango id=7'')"
  using pack32_rejects_iff [of "limit_player (JNum 7)"]
    pack32_rejects_iff [of "(limit_player (JNum 7))\<lparr>despejes := JNum 65\<rparr>"]
  by (simp add: limit_player_def js_gt_JNum BigInt_toString_def digits_10_values)

text \<open>
  C2 as stated fails where it says that the error names the offending field: a record whose
  only excess is tarjetasRojas and one whose only excess is tarjetasAmarillas get the same
  message.
\<close>

theorem error_names_field_counterexample:
  "pack32 ((zero_player (JNum 7))\<lparr>tarjetasRojas := JNum 2\<rparr>)
      = Inl (Error ''tarjetas fuera de rango id=7'')
    \<and> pack32 ((zero_player (JNum 7))\<lparr>tarjetasAmarillas := JNum 3\<rparr>)
      = Inl (Error ''tarjetas fuera de rango id=7'')
    \<and> \<not> js_gt (tarjetasAmarillas ((zero_player (JNum 7))\<lparr>tarjetasRojas := JNum 2\<rparr>)) 2
    \<and> \<not> js_gt (tarjetasRojas ((zero_player (JNum 7))\<lparr>tarjetasAmarillas := JNum 3\<rparr>)) 1"
  by (simp add: zero_player_def pack32_def js_gt_def BigInt_toString_def digits_10_values)

text \<open>
  C3. In every run, completed or aborted, the nonces of the requests handed to the signer,
  and of those sent, are \<open>n0, n0 + 1, \<dots>\<close> without gap or repetition once the repeats of
  retries are collapsed; two attempts with the same nonce carry the same request; every
  request sent is one that was signed; and a completed run has used exactly one nonce for
  each record that has the field goles.
\<close>

theorem nonces_consecutive:
  assumes "getTransactionCount w = Some n0" and "main w stats = (res, s)"
  shows "(\<exists>N. remdups_adj (map nonce (signed (trace s))) = [n0..<n0 + N])
    \<and> (\<exists>N. remdups_adj (map nonce (sent (trace s))) = [n0..<n0 + N])
    \<and> (\<forall>tx \<in> set (signed (trace s)). \<forall>tx' \<in> set (signed (trace s)).
          nonce tx = nonce tx' \<longrightarrow> tx = tx')
    \<and> set (sent (trace s)) \<subseteq> set (signed (trace s))
    \<and> (res = Inr () \<longrightarrow>
          remdups_adj (map nonce (sent (trace s)))
            = [n0..<n0 + length (filter (\<lambda>p. goles p \<noteq> JUndefined) stats)])"
proof -
  from main_effect [OF assms] obtain m m' where
    e: "blocks (\<lambda>k. fee_ok w (k - n0)) n0 m (signed (trace s))"
      "blocks (\<lambda>k. fee_ok w (k - n0)) n0 m' (sent (trace s))"
      "set (sent (trace s)) \<subseteq> set (signed (trace s))"
      "res = Inr () \<longrightarrow> m' = n0 + length (filter (\<lambda>p. goles p \<noteq> JUndefined) stats)"
    by blast
  have "remdups_adj (map nonce (signed (trace s))) = [n0..<n0 + (m - n0)]"
    using blocks_nonces [OF e(1)] blocks_bounds [OF e(1)] by simp
  moreover have "remdups_adj (map nonce (sent (trace s))) = [n0..<n0 + (m' - n0)]"
    using blocks_nonces [OF e(2)] blocks_bounds [OF e(2)] by simp
  moreover have "\<forall>tx \<in> set (signed (trace s)). \<forall>tx' \<in> set (signed (trace s)).
      nonce tx = nonce tx' \<longrightarrow> tx = tx'"
    using blocks_same_request [OF e(1)] by blast
  moreover have "res = Inr () \<longrightarrow> remdups_adj (map nonce (sent (trace s)))
      = [n0..<n0 + length (filter (\<lambda>p. goles p \<noteq> JUndefined) stats)]"
    using blocks_nonces [OF e(2)] e(4) by simp
  ultimately show ?thesis
    using e(3) by blast
qed

theorem nonces_consecutive_witness:
  "getTransactionCount world1 = Some 5
    \<and> remdups_adj (map nonce (signed (trace (snd (main world1 stats1))))) = [5, 6, 7]
    \<and> remdups_adj (map nonce (sent (trace (snd (main world1 stats1))))) = [5, 6, 7]
    \<and> map nonce (sent (trace (snd (main world1 stats1)))) = [5, 6, 6, 6, 7]"
proof -
  have c: "getTransactionCount world1 = Some 5"
    by (simp add: world1_def)
  have n: "length (filter (\<lambda>p. goles p \<noteq> JUndefined) stats1) = 3"
    by (simp add: stats1_def zero_player_sel)
  from nonces_consecutive [OF c main_world1_stats1] c n show ?thesis
    by (simp add: main_world1_stats1 tx1_def)
qed

text \<open>
  C4. Let the records before record \<open>p\<close> be processed without error. If \<open>pack32 p\<close> throws,
  or if no run of the callback for \<open>p\<close> gets a receipt (the first run and its three
  retries), the run ends in an error; its result and its whole state (calls made, metrics,
  console) are those of the batch cut off after \<open>p\<close>, whatever records follow; no summary
  line is printed; and when it is \<open>pack32\<close> that throws, nothing is done for \<open>p\<close> either.
\<close>

theorem batch_aborts_at_failure:
  assumes "getTransactionCount w = Some n0"
    and "batch w xs n0 initial_state = (Inr n1, s1)"
    and "goles p \<noteq> JUndefined"
    and "isl (pack32 p) \<or> (\<forall>k < 4. \<forall>g d. attempt_reply w (attempts s1 + k) \<noteq> Receipt g d)"
  shows "isl (fst (main w (xs @ p # ys)))
    \<and> main w (xs @ p # ys) = main w (xs @ [p])
    \<and> filter summary_line (console (snd (main w (xs @ p # ys)))) = []
    \<and> (isl (pack32 p) \<longrightarrow> snd (main w (xs @ p # ys)) = s1)"
proof -
  have one: "isl (fst (batch w [p] n1 s1))"
  proof (cases "pack32 p")
    case (Inl e)
    with assms(3) show ?thesis by simp
  next
    case (Inr packed)
    with assms(4) have "isl (fst (sendPacked w packed (id_field p) n1 s1))"
      by (intro sendPacked_exhausted) simp
    with Inr assms(3) show ?thesis
      by (cases "sendPacked w packed (id_field p) n1 s1") (auto split: sum.splits)
  qed
  then obtain e s2 where b: "batch w [p] n1 s1 = (Inl e, s2)"
    by (cases "batch w [p] n1 s1") (auto simp: isl_def)
  have k: "batch w (xs @ [p]) n0 initial_state = (Inl e, s2)"
    unfolding batch_append [of w xs "[p]"] assms(2) using b by simp
  have "batch w ((xs @ [p]) @ ys) n0 initial_state = (Inl e, s2)"
    unfolding batch_append [of w "xs @ [p]" ys] k by simp
  with k have "batch w (xs @ p # ys) n0 initial_state = (Inl e, s2)"
    "batch w (xs @ [p]) n0 initial_state = (Inl e, s2)"
    by simp_all
  then have m: "main w (xs @ p # ys) = (Inl e, s2)" "main w (xs @ [p]) = (Inl e, s2)"
    using assms(1) by (simp_all add: main_aborts)
  from main_effect [OF assms(1) m(1)] have "filter summary_line (console s2) = []"
    by simp
  moreover have "isl (pack32 p) \<longrightarrow> s2 = s1"
    using b assms(3) by (auto simp: isl_def)
  ultimately show ?thesis
    using m by simp
qed

theorem batch_aborts_at_failure_witness:
  "isl (fst (main world1
      [zero_player (JNum 1), (zero_player (JNum 2))\<lparr>goles := JNum 9\<rparr>, zero_player (JNum 4)]))
    \<and> snd (main world1
      [zero_player (JNum 1), (zero_player (JNum 2))\<lparr>goles := JNum 9\<rparr>, zero_player (JNum 4)])
        = state_after_first
    \<and> isl (fst (main world_down
      [zero_player (JNum 1), zero_player (JNum 2), zero_player (JNum 4)]))
    \<and> main world_down [zero_player (JNum 1), zero_player (JNum 2), zero_player (JNum 4)]
        = main world_down [zero_player (JNum 1), zero_player (JNum 2)]
    \<and> filter summary_line (console (snd (main world_down
      [zero_player (JNum 1), zero_player (JNum 2), zero_player (JNum 4)]))) = []"
proof -
  have c: "getTransactionCount world1 = Some 5" "getTransactionCount world_down = Some 5"
    by (simp_all add: world1_def world_down_def)
  have bad: "isl (pack32 ((zero_player (JNum 2))\<lparr>goles := JNum 9\<rparr>))"
    by (simp add: pack32_def js_gt_def)
  have down: "\<forall>k < 4. \<forall>g d. attempt_reply world_down (attempts state_after_first + k) \<noteq> Receipt g d"
    by (simp add: world_down_def state_after_first_def)
  have g: "goles ((zero_player (JNum 2))\<lparr>goles := JNum 9\<rparr>) \<noteq> JUndefined"
    "goles (zero_player (JNum 2)) \<noteq> JUndefined"
    by (simp_all add: zero_player_sel)
  from batch_aborts_at_failure [OF c(1) batch_first_record(1) g(1) disjI1 [OF bad],
      of "[zero_player (JNum 4)]", unfolded append_Cons append_Nil]
    batch_aborts_at_failure [OF c(2) batch_first_record(2) g(2) disjI2 [OF down],
      of "[zero_player (JNum 4)]", unfolded append_Cons append_Nil]
  show ?thesis
    using bad by blast
qed

text \<open>
  C5, as amended. The base fee is not validated. When the pending block has no base fee
  (\<^verbatim>\<open>undefined\<close> or \<^verbatim>\<open>null\<close>), the conversion to BigInt throws a TypeError before the
  retry loop is entered: \<open>sendPacked\<close> fails after its single \<^verbatim>\<open>getBlock\<close> call, without
  any signing or sending, and the batch aborts. A numeric base fee, negative or not, is
  accepted: the request carries \<open>maxFee = 2 * baseFee + tip\<close> and enters the retry loop.
\<close>

theorem base_fee_not_validated:
  assumes "encodeABI w i h = Some encoded" and "getBlock w (blockCalls s) = Some v"
  shows "(v = JUndefined \<or> v = JNull \<longrightarrow>
        sendPacked w h i n s
          = (Inl TypeError, s\<lparr>blockCalls := blockCalls s + 1, trace := trace s @ [GetBlock]\<rparr>)
        \<and> (\<forall>p ps. goles p \<noteq> JUndefined \<and> pack32 p = Inr h \<and> id_field p = i \<longrightarrow>
              batch w (p # ps) n s
                = (Inl TypeError,
                   s\<lparr>blockCalls := blockCalls s + 1, trace := trace s @ [GetBlock]\<rparr>)))
    \<and> (\<forall>b. v = JNum b \<longrightarrow>
        sendPacked w h i n s
          = retry w
              \<lparr>tx_from = acct_address w, tx_to = league_address w, gas = 120000,
                maxPriorityFeePerGas = BigInt_toString 10 (2 * 10 ^ 9),
                maxFeePerGas = BigInt_toString 10 (2 * b + 2 * 10 ^ 9), nonce = n,
                data = encoded\<rparr>
              i 3 1 (s\<lparr>blockCalls := blockCalls s + 1, trace := trace s @ [GetBlock]\<rparr>))"
  using assms by (auto simp: sendPacked_def GAS_LIMIT_def Let_def mult.commute)

theorem base_fee_not_validated_witness:
  "sendPacked world_no_fee ''0x00000000'' (JNum 1) 5 initial_state
      = (Inl TypeError, initial_state\<lparr>blockCalls := 1, trace := [GetBlock]\<rparr>)
    \<and> batch world_no_fee [zero_player (JNum 1), zero_player (JNum 2)] 5 initial_state
      = (Inl TypeError, initial_state\<lparr>blockCalls := 1, trace := [GetBlock]\<rparr>)
    \<and> sendPacked world_negative_fee ''0x00000000'' (JNum 1) 5 initial_state
      = retry world_negative_fee (tx1 5 ''1999999990'' ''1:0x00000000'') (JNum 1) 3 1
          (initial_state\<lparr>blockCalls := 1, trace := [GetBlock]\<rparr>)"
proof -
  have e: "encodeABI world_no_fee (JNum 1) ''0x00000000'' = Some ''1:0x00000000''"
    "encodeABI world_negative_fee (JNum 1) ''0x00000000'' = Some ''1:0x00000000''"
    by (simp_all add: world_no_fee_def world_negative_fee_def world1_def BigInt_toString_10_values)
  have b: "getBlock world_no_fee (blockCalls initial_state) = Some JUndefined"
    "getBlock world_negative_fee (blockCalls initial_state) = Some (JNum (- 5))"
    by (simp_all add: world_no_fee_def world_negative_fee_def)
  have a: "acct_address world_negative_fee = ''0xacc''" "league_address world_negative_fee = ''0x1ea''"
    by (simp_all add: world_negative_fee_def world1_def)
  from base_fee_not_validated [OF e(1) b(1), of 5] base_fee_not_validated [OF e(2) b(2), of 5]
  show ?thesis
    by (simp add: initial_state_def pack32_zero_player zero_player_sel tx1_def a
        BigInt_toString_10_values)
qed

text \<open>
  C5 as stated fails: with a base fee of \<open>- 5\<close> the submission succeeds, with
  \<open>maxFeePerGas = 2 * (- 5) + 2 * 10 ^ 9\<close>; and with no base fee the error arrives after
  one \<^verbatim>\<open>getBlock\<close> call and no attempt, although the first attempt would have got a
  receipt.
\<close>

theorem invalid_fee_input_counterexample:
  "fst (sendPacked world_negative_fee ''0x00000000'' (JNum 1) 5 initial_state) = Inr 50000
    \<and> sent (trace (snd (sendPacked world_negative_fee ''0x00000000'' (JNum 1) 5 initial_state)))
        = [tx1 5 ''1999999990'' ''1:0x00000000'']
    \<and> attempt_reply world_no_fee 0 = Receipt 50000 12
    \<and> sendPacked world_no_fee ''0x00000000'' (JNum 1) 5 initial_state
        = (Inl TypeError, initial_state\<lparr>blockCalls := 1, trace := [GetBlock]\<rparr>)"
  by (simp add: world_negative_fee_def world_no_fee_def world1_def initial_state_def
      sendPacked_def attempt_def GAS_LIMIT_def tx1_def numeral_3_eq_3
      BigInt_toString_10_values Let_def)



text \<open>
  C7. Every request signed or sent carries the gas limit 120000, the priority fee
  \<open>2 * 10 ^ 9\<close> and \<open>maxFee = 2 * baseFee + 2 * 10 ^ 9\<close> in decimal, where \<open>baseFee\<close> is the
  base fee of the reply to the \<^verbatim>\<open>getBlock\<close> call made for that very record: the request
  with nonce \<open>n0 + k\<close> uses reply number \<open>k\<close>. (The retries of one record reuse its
  request, as C3 states.)
\<close>

theorem fees_recomputed_per_submission:
  assumes "getTransactionCount w = Some n0" and "main w stats = (res, s)"
  shows "\<forall>tx \<in> set (signed (trace s)) \<union> set (sent (trace s)).
      gas tx = 120000
      \<and> maxPriorityFeePerGas tx = BigInt_toString 10 (2 * 10 ^ 9)
      \<and> (\<exists>v base. getBlock w (nonce tx - n0) = Some v \<and> BigInt v = Inr base
            \<and> maxFeePerGas tx = BigInt_toString 10 (2 * base + 2 * 10 ^ 9))"
proof
  fix tx
  assume tx: "tx \<in> set (signed (trace s)) \<union> set (sent (trace s))"
  from main_effect [OF assms] obtain m where
    e: "blocks (\<lambda>k. fee_ok w (k - n0)) n0 m (signed (trace s))"
      "set (sent (trace s)) \<subseteq> set (signed (trace s))"
    by blast
  from tx e(2) have "tx \<in> set (signed (trace s))"
    by blast
  from blocks_member [OF e(1) this] have "fee_ok w (nonce tx - n0) tx"
    by simp
  then show "gas tx = 120000
      \<and> maxPriorityFeePerGas tx = BigInt_toString 10 (2 * 10 ^ 9)
      \<and> (\<exists>v base. getBlock w (nonce tx - n0) = Some v \<and> BigInt v = Inr base
            \<and> maxFeePerGas tx = BigInt_toString 10 (2 * base + 2 * 10 ^ 9))"
    by (simp add: fee_ok_def)
qed

theorem fees_recomputed_per_submission_witness:
  "getTransactionCount world1 = Some 5
    \<and> map (getBlock world1) [0, 1, 2] = [Some (JNum 100), Some (JNum 101), Some (JNum 102)]
    \<and> map (\<lambda>tx. (nonce tx, gas tx, maxPriorityFeePerGas tx, maxFeePerGas tx))
          (sent (trace (snd (main world1 stats1))))
        = [(5, 120000, ''2000000000'', ''2000000200''),
           (6, 120000, ''2000000000'', ''2000000202''),
           (6, 120000, ''2000000000'', ''2000000202''),
           (6, 120000, ''2000000000'', ''2000000202''),
           (7, 120000, ''2000000000'', ''2000000204'')]"
proof -
  have c: "getTransactionCount world1 = Some 5"
    by (simp add: world1_def)
  have g: "map (getBlock world1) [0, 1, 2] = [Some (JNum 100), Some (JNum 101), Some (JNum 102)]"
    by (simp add: world1_def)
  from fees_recomputed_per_submission [OF c main_world1_stats1] c g show ?thesis
    by (simp add: main_world1_stats1 tx1_def)
qed

text \<open>
  C8. With every numeric field zero, setting only ganoPartido gives \<open>0x80000000\<close> and
  setting only porteriaCero gives \<open>0x40000000\<close>, whatever the id.
\<close>

theorem pack32_single_flag:
  "pack32 ((zero_player i)\<lparr>ganoPartido := JBool True\<rparr>) = Inr ''0x80000000''
    \<and> pack32 ((zero_player i)\<lparr>porteriaCero := JBool True\<rparr>) = Inr ''0x40000000''"
  by (simp add: zero_player_def pack32_def pack_word_def js_gt_def js_bitand_def
      BigInt_toString_def padStart_def digits_16_values)

text \<open>
  C9. \<open>pack32\<close> checks upper bounds only. A record whose numeric fields do not exceed
  their upper limits is accepted whatever their signs, and each field of the word holds the
  value reduced modulo the width of the field: goles \<open>- 1\<close> is stored as 15, paradas \<open>- 1\<close>
  as 31. The lower bound on minutosJugados keeps the division by 3 exact in a Number.
\<close>

theorem pack32_negative_masked:
  assumes "goles p = JNum g" "g \<le> 8" "asistencias p = JNum a" "a \<le> 8"
    and "paradas p = JNum pa" "pa \<le> 32" "penaltisParados p = JNum pe" "pe \<le> 4"
    and "despejes p = JNum de" "de \<le> 64"
    and "minutosJugados p = JNum m" "- (2 ^ 53) < m" "m \<le> 90"
    and "tarjetasAmarillas p = JNum ta" "ta \<le> 2" "tarjetasRojas p = JNum tr" "tr \<le> 1"
  shows "\<exists>s. pack32 p = Inr (''0x'' @ s) \<and> length s = 8 \<and> set s \<subseteq> set ''0123456789abcdef''
    \<and> 0 \<le> read_hex s \<and> read_hex s < 2 ^ 32
    \<and> take_bit 4 (read_hex s) = g mod 16
    \<and> take_bit 4 (drop_bit 4 (read_hex s)) = a mod 16
    \<and> take_bit 5 (drop_bit 8 (read_hex s)) = min pa 31 mod 32
    \<and> take_bit 3 (drop_bit 13 (read_hex s)) = pe mod 8
    \<and> take_bit 6 (drop_bit 16 (read_hex s)) = min de 63 mod 64
    \<and> take_bit 5 (drop_bit 22 (read_hex s)) = m div 3 mod 32
    \<and> take_bit 2 (drop_bit 27 (read_hex s)) = ta mod 4
    \<and> take_bit 1 (drop_bit 29 (read_hex s)) = tr mod 2
    \<and> bit (read_hex s) 30 = ToBoolean (porteriaCero p)
    \<and> bit (read_hex s) 31 = ToBoolean (ganoPartido p)"
  using assms(1-11,13-17) by (rule pack32_masked_fields)

theorem pack32_negative_masked_witness:
  "\<exists>s. pack32 ((zero_player (JNum 7))\<lparr>goles := JNum (- 1), paradas := JNum (- 1)\<rparr>)
      = Inr (''0x'' @ s) \<and> length s = 8
    \<and> set s \<subseteq> set ''0123456789abcdef''
    \<and> 0 \<le> read_hex s \<and> read_hex s < 2 ^ 32
    \<and> take_bit 4 (read_hex s) = 15
    \<and> take_bit 4 (drop_bit 4 (read_hex s)) = 0
    \<and> take_bit 5 (drop_bit 8 (read_hex s)) = 31
    \<and> take_bit 3 (drop_bit 13 (read_hex s)) = 0
    \<and> take_bit 6 (drop_bit 16 (read_hex s)) = 0
    \<and> take_bit 5 (drop_bit 22 (read_hex s)) = 0
    \<and> take_bit 2 (drop_bit 27 (read_hex s)) = 0
    \<and> take_bit 1 (drop_bit 29 (read_hex s)) = 0
    \<and> bit (read_hex s) 30 = False
    \<and> bit (read_hex s) 31 = False"
  using pack32_negative_masked [of "(zero_player (JNum 7))\<lparr>goles := JNum (- 1), paradas := JNum (- 1)\<rparr>"
      "- 1" 0 "- 1" 0 0 0 0 0]
  by (simp add: zero_player_def)

text \<open>
  C10. A missing numeric field is packed as the value 0 would be, and a missing flag as
  \<open>false\<close>: the checks pass and the bits are 0. The loop skips a record when goles is
  missing and only then: any other record is packed and, unless \<open>pack32\<close> throws, handed to
  \<open>sendPacked\<close>. A record that has nothing but its id and a goles value within the limit
  is packed without error.
\<close>

theorem missing_fields_as_zero:
  "pack32 (p\<lparr>asistencias := JUndefined\<rparr>) = pack32 (p\<lparr>asistencias := JNum 0\<rparr>)
    \<and> pack32 (p\<lparr>paradas := JUndefined\<rparr>) = pack32 (p\<lparr>paradas := JNum 0\<rparr>)
    \<and> pack32 (p\<lparr>penaltisParados := JUndefined\<rparr>) = pack32 (p\<lparr>penaltisParados := JNum 0\<rparr>)
    \<and> pack32 (p\<lparr>despejes := JUndefined\<rparr>) = pack32 (p\<lparr>despejes := JNum 0\<rparr>)
    \<and> pack32 (p\<lparr>minutosJugados := JUndefined\<rparr>) = pack32 (p\<lparr>minutosJugados := JNum 0\<rparr>)
    \<and> pack32 (p\<lparr>tarjetasAmarillas := JUndefined\<rparr>) = pack32 (p\<lparr>tarjetasAmarillas := JNum 0\<rparr>)
    \<and> pack32 (p\<lparr>tarjetasRojas := JUndefined\<rparr>) = pack32 (p\<lparr>tarjetasRojas := JNum 0\<rparr>)
    \<and> pack32 (p\<lparr>porteriaCero := JUndefined\<rparr>) = pack32 (p\<lparr>porteriaCero := JBool False\<rparr>)
    \<and> pack32 (p\<lparr>ganoPartido := JUndefined\<rparr>) = pack32 (p\<lparr>ganoPartido := JBool False\<rparr>)
    \<and> (goles p = JUndefined \<longrightarrow> batch w (p # ps) n s = batch w ps n s)
    \<and> (goles p \<noteq> JUndefined \<longrightarrow>
          batch w (p # ps) n s
            = (case pack32 p of
                 Inl e \<Rightarrow> (Inl e, s)
               | Inr packed \<Rightarrow>
                   (case sendPacked w packed (id_field p) n s of
                      (Inl e, s') \<Rightarrow> (Inl e, s')
                    | (Inr rcpt, s') \<Rightarrow> batch w ps (n + 1) s')))
    \<and> (0 \<le> g \<and> g \<le> 8 \<longrightarrow>
          pack32 (only_goles i (JNum g)) = Inr (''0x0000000'' @ [digit_char g]))"
proof -
  have u: "js_gt JUndefined k = js_gt (JNum 0) k" if "0 \<le> k" for k
    using that by (simp add: js_gt_def)
  have z: "js_bitand NaN m = js_bitand (Num 0) m" for m
    by (simp add: js_bitand_def)
  have numeric: "pack32 (p\<lparr>asistencias := JUndefined\<rparr>) = pack32 (p\<lparr>asistencias := JNum 0\<rparr>)"
    "pack32 (p\<lparr>paradas := JUndefined\<rparr>) = pack32 (p\<lparr>paradas := JNum 0\<rparr>)"
    "pack32 (p\<lparr>penaltisParados := JUndefined\<rparr>) = pack32 (p\<lparr>penaltisParados := JNum 0\<rparr>)"
    "pack32 (p\<lparr>despejes := JUndefined\<rparr>) = pack32 (p\<lparr>despejes := JNum 0\<rparr>)"
    "pack32 (p\<lparr>minutosJugados := JUndefined\<rparr>) = pack32 (p\<lparr>minutosJugados := JNum 0\<rparr>)"
    "pack32 (p\<lparr>tarjetasAmarillas := JUndefined\<rparr>) = pack32 (p\<lparr>tarjetasAmarillas := JNum 0\<rparr>)"
    "pack32 (p\<lparr>tarjetasRojas := JUndefined\<rparr>) = pack32 (p\<lparr>tarjetasRojas := JNum 0\<rparr>)"
    by (simp_all add: pack32_def pack_word_def u z)
  have flags: "pack32 (p\<lparr>porteriaCero := JUndefined\<rparr>) = pack32 (p\<lparr>porteriaCero := JBool False\<rparr>)"
    "pack32 (p\<lparr>ganoPartido := JUndefined\<rparr>) = pack32 (p\<lparr>ganoPartido := JBool False\<rparr>)"
    by (simp_all add: pack32_def pack_word_def)
  have skip: "goles p = JUndefined \<longrightarrow> batch w (p # ps) n s = batch w ps n s"
    by simp
  have run: "goles p \<noteq> JUndefined \<longrightarrow>
      batch w (p # ps) n s
        = (case pack32 p of
             Inl e \<Rightarrow> (Inl e, s)
           | Inr packed \<Rightarrow>
               (case sendPacked w packed (id_field p) n s of
                  (Inl e, s') \<Rightarrow> (Inl e, s')
                | (Inr rcpt, s') \<Rightarrow> batch w ps (n + 1) s'))"
    by simp
  have only: "0 \<le> g \<and> g \<le> 8 \<longrightarrow>
      pack32 (only_goles i (JNum g)) = Inr (''0x0000000'' @ [digit_char g])"
    by (simp add: pack32_only_goles)
  from numeric flags skip run only show ?thesis
    by (simp only: simp_thms)
qed

theorem missing_fields_as_zero_witness:
  "pack32 (only_goles (JNum 7) (JNum 2)) = Inr ''0x00000002''
    \<and> fst (batch world1 [only_goles (JNum 7) (JNum 2)] 5 initial_state) = Inr 6
    \<and> batch world1 [only_goles (JNum 7) JUndefined] 5 initial_state = (Inr 5, initial_state)"
proof -
  have d: "digit_char 2 = CHR ''2''"
    by (simp add: digit_char_def)
  have s: "fst (sendPacked world1 ''0x00000002'' (JNum 7) 5 initial_state) = Inr 50000"
    by (simp add: world1_def initial_state_def sendPacked_def attempt_def GAS_LIMIT_def
        numeral_3_eq_3 BigInt_toString_10_values Let_def)
  then obtain s' where sp:
    "sendPacked world1 ''0x00000002'' (JNum 7) 5 initial_state = (Inr 50000, s')"
    by (cases "sendPacked world1 ''0x00000002'' (JNum 7) 5 initial_state") simp
  have g: "goles (only_goles (JNum 7) JUndefined) = JUndefined"
    "goles (only_goles (JNum 7) (JNum 2)) \<noteq> JUndefined"
    "id_field (only_goles (JNum 7) (JNum 2)) = JNum 7"
    by (simp_all add: only_goles_def)
  from missing_fields_as_zero [of "only_goles (JNum 7) JUndefined" world1 "[]" 5 initial_state 2
      "JNum 7"]
    missing_fields_as_zero [of "only_goles (JNum 7) (JNum 2)" world1 "[]" 5 initial_state 2
      "JNum 7"]
    g
  show ?thesis
    by (simp add: d sp)
qed

end
